theory Spec2Isabelle
  imports Complex_Main "HOL-Library.Monad_Syntax"
begin

section \<open>The re-entrant cube capacity notebook\<close>

text \<open>
  The source is the notebook \<^verbatim>\<open>notebooks/reentrant_cube_capacity.ipynb\<close>: nine code
  cells that drive the Bempp boundary element library and NumPy. The cells are embedded
  as HOL functions. What Bempp computes (operators, grid functions, the Krylov solver,
  the grids) is not part of the notebook; it enters the model as a record of functions,
  \<open>bempp\<close>, over opaque types, and every theorem holds for any such library.
  \<^verbatim>\<open>float64\<close> values are read as real numbers, so rounding, overflow and NaN are
  outside the model. An \<^verbatim>\<open>IndexError\<close> is the value \<open>None\<close>.
\<close>

subsection \<open>NumPy arrays\<close>

text \<open>
  A two-dimensional array is its shape and its entries; only entries inside the
  shape are ever read.
\<close>

record 'a ndarray2 =
  shape0 :: nat
  shape1 :: nat
  entry :: "nat \<Rightarrow> nat \<Rightarrow> 'a"

definition column :: "'a ndarray2 \<Rightarrow> nat \<Rightarrow> 'a list option" where
  \<comment> \<open>\<^verbatim>\<open>a[:, j]\<close> for a literal \<open>j \<ge> 0\<close>\<close>
  "column a j = (if j < shape1 a then Some (map (\<lambda>i. entry a i j) [0..<shape0 a]) else None)"

definition item2 :: "'a ndarray2 \<Rightarrow> nat \<Rightarrow> nat \<Rightarrow> 'a option" where
  \<comment> \<open>\<^verbatim>\<open>a[i, j]\<close> for literals \<open>i, j \<ge> 0\<close>\<close>
  "item2 a i j = (if i < shape0 a \<and> j < shape1 a then Some (entry a i j) else None)"

definition pos :: "nat \<Rightarrow> int \<Rightarrow> nat" where
  \<comment> \<open>the position an integer index denotes in an axis of length \<open>n\<close>:
      negative indices count from the end\<close>
  "pos n i = (if i < 0 then nat (i + int n) else nat i)"

definition np_index :: "nat \<Rightarrow> int \<Rightarrow> nat option" where
  \<comment> \<open>an index outside \<open>-n \<le> i < n\<close> raises\<close>
  "np_index n i = (if - int n \<le> i \<and> i < int n then Some (pos n i) else None)"

definition np_get :: "'a list \<Rightarrow> int \<Rightarrow> 'a option" where
  \<comment> \<open>\<^verbatim>\<open>a[i]\<close>\<close>
  "np_get a i = map_option (\<lambda>k. a ! k) (np_index (length a) i)"

definition np_set :: "'a list \<Rightarrow> int \<Rightarrow> 'a \<Rightarrow> 'a list option" where
  \<comment> \<open>\<^verbatim>\<open>a[i] = v\<close>, returning the updated array\<close>
  "np_set a i v = map_option (\<lambda>k. a[k := v]) (np_index (length a) i)"

definition zeros :: "nat \<Rightarrow> real list" where
  \<comment> \<open>\<^verbatim>\<open>np.zeros(n, dtype='float64')\<close>\<close>
  "zeros n = replicate n 0"

definition vsub :: "real list \<Rightarrow> real list \<Rightarrow> real list" where
  \<comment> \<open>\<^verbatim>\<open>a - b\<close> on one-dimensional arrays of one length\<close>
  "vsub a b = map2 (-) a b"

definition linalg_norm :: "real list \<Rightarrow> real" where
  \<comment> \<open>\<^verbatim>\<open>np.linalg.norm(v)\<close> of a one-dimensional array: the 2-norm\<close>
  "linalg_norm v = sqrt (\<Sum>x\<leftarrow>v. x\<^sup>2)"

definition np_sqrt :: "real list \<Rightarrow> real list" where
  \<comment> \<open>\<^verbatim>\<open>np.sqrt(v)\<close>, elementwise\<close>
  "np_sqrt v = map sqrt v"

subsection \<open>Cell 6: the diameter of an element\<close>

text \<open>
  \<^verbatim>\<open>
  def diameter(element):
      corners = element.geometry.corners
      d0 = np.linalg.norm(corners[:,0] - corners[:,1])
      d1 = np.linalg.norm(corners[:,0] - corners[:, 2])
      d2 = np.linalg.norm(corners[:,1] - corners[:, 2])
      return np.max([d0, d1, d2])
  \<close>
  \<^verbatim>\<open>element.geometry.corners\<close> is an array whose column \<open>j\<close> holds the
  coordinates of corner \<open>j\<close>.
\<close>

record geometry =
  corners :: "real ndarray2"

record element =
  geometry :: geometry

definition diameter :: "element \<Rightarrow> real option" where
  "diameter element = do {
     let cs = corners (geometry element);
     c00 \<leftarrow> column cs 0;
     c01 \<leftarrow> column cs 1;
     let d0 = linalg_norm (vsub c00 c01);
     c10 \<leftarrow> column cs 0;
     c12 \<leftarrow> column cs 2;
     let d1 = linalg_norm (vsub c10 c12);
     c21 \<leftarrow> column cs 1;
     c22 \<leftarrow> column cs 2;
     let d2 = linalg_norm (vsub c21 c22);
     Some (Max (set [d0, d1, d2]))
   }"

text \<open>
  The distance of the specification, \<open>|a - b|\<close>, written out coordinate by coordinate,
  and the corner \<open>j\<close> of an element as a list of coordinates.
\<close>

definition euclid_dist :: "real list \<Rightarrow> real list \<Rightarrow> real" where
  "euclid_dist a b = sqrt (\<Sum>k<length a. (a ! k - b ! k)\<^sup>2)"

definition corner :: "element \<Rightarrow> nat \<Rightarrow> real list" where
  "corner e j = map (\<lambda>i. entry (corners (geometry e)) i j) [0..<shape0 (corners (geometry e))]"

definition triangle :: "element \<Rightarrow> bool" where
  \<comment> \<open>the corner array has (at least) the three columns the notebook reads\<close>
  "triangle e = (3 \<le> shape1 (corners (geometry e)))"

subsection \<open>The library the notebook drives\<close>

text \<open>
  The part of Bempp the notebook calls, as a record of functions over four opaque
  types: grids \<open>'g\<close>, function spaces \<open>'s\<close>, boundary operators \<open>'o\<close> and grid
  functions \<open>'f\<close>. A leaf view gives the number of entities of a codimension, the
  elements in iteration order and the index set's \<^verbatim>\<open>entity_index\<close>.
\<close>

record index_set =
  entity_index :: "element \<Rightarrow> int"

record leaf_view =
  entity_count :: "nat \<Rightarrow> nat"
  entity_iterator :: "nat \<Rightarrow> element list"
  index_set :: index_set

type_synonym callback = "real list \<Rightarrow> real list \<Rightarrow> int \<Rightarrow> real list \<Rightarrow> real list option"

record ('g, 's, 'o, 'f) bempp =
  reentrant_cube :: "real \<Rightarrow> real \<Rightarrow> 'g"
  single_layer_and_hypersingular_pair :: "'g \<Rightarrow> string \<Rightarrow> bool \<Rightarrow> 'o \<times> 'o \<times> 'o"
  RankOneBoundaryOperator :: "'s \<Rightarrow> 's \<Rightarrow> 's \<Rightarrow> 'o"
  op_domain :: "'o \<Rightarrow> 's"
  op_range :: "'o \<Rightarrow> 's"
  op_dual_to_range :: "'o \<Rightarrow> 's"
  op_add :: "'o \<Rightarrow> 'o \<Rightarrow> 'o"
  op_mul :: "'o \<Rightarrow> 'o \<Rightarrow> 'o"
  op_apply :: "'o \<Rightarrow> 'f \<Rightarrow> 'f"
  GridFunction :: "'s \<Rightarrow> callback \<Rightarrow> 'f"
  gmres :: "'o \<Rightarrow> 'f \<Rightarrow> bool \<Rightarrow> bool \<Rightarrow> 'f \<times> int \<times> int"
  gf_space :: "'f \<Rightarrow> 's"
  integrate :: "'f \<Rightarrow> real ndarray2"
  surface_grad_norm :: "'f \<Rightarrow> element \<Rightarrow> real"
  sparse_identity :: "'s \<Rightarrow> 's \<Rightarrow> 's \<Rightarrow> 'o"
  barycentric_descendents_map :: "'g \<Rightarrow> int ndarray2"
  barycentric_grid :: "'g \<Rightarrow> 'g"
  leaf_view :: "'g \<Rightarrow> leaf_view"

subsection \<open>Cells 2 to 5 and 7: operators, solve, capacity, lift\<close>

text \<open>
  Cell 3:
  \<^verbatim>\<open>
  def one_fun(x, n, domain_index, res):
      res[0] = -1
  slp, hyp, base_slp = bempp.api.operators.boundary.laplace.single_layer_and_hypersingular_pair(
          grid, spaces='dual', return_base_slp=True)
  rank_one_op = bempp.api.RankOneBoundaryOperator(hyp.domain, hyp.range, hyp.dual_to_range)
  hyp_regularized = hyp + rank_one_op
  rhs_fun = bempp.api.GridFunction(slp.range, fun=one_fun)
  lhs = slp * hyp_regularized
  \<close>
  Cell 4:
  \<^verbatim>\<open>
  x, info, it_count = bempp.api.linalg.gmres(
      lhs, rhs_fun, use_strong_form=True, return_iteration_count=True)
  sol_fun = hyp_regularized * x
  print("Number of iterations: {0}".format(it_count))
  print("The capacity is {0}.".format(-sol_fun.integrate()[0,0]))
  \<close>
  Cell 5 is \<^verbatim>\<open>bary_map = grid.barycentric_descendents_map()\<close>. Cell 7:
  \<^verbatim>\<open>
  map_to_base_space = bempp.api.operators.boundary.sparse.identity(
      sol_fun.space, base_slp.domain, base_slp.domain)
  base_sol_fun = map_to_base_space * sol_fun
  base_slp_times_sol = base_slp * base_sol_fun
  \<close>
\<close>

definition cell2 :: "('g, 's, 'o, 'f) bempp \<Rightarrow> 'g" where
  \<comment> \<open>\<^verbatim>\<open>grid = bempp.api.shapes.reentrant_cube(h=0.05, refinement_factor=1)\<close>\<close>
  "cell2 L = reentrant_cube L (5 / 100) 1"

definition one_fun :: callback where
  \<comment> \<open>\<^verbatim>\<open>res[0] = -1\<close>; the updated \<open>res\<close> is returned\<close>
  "one_fun x n domain_index res = np_set res 0 (- 1)"

record ('s, 'o, 'f) cell3_vars =
  slp :: 'o
  hyp :: 'o
  base_slp :: 'o
  rank_one_op :: 'o
  hyp_regularized :: 'o
  rhs_fun :: 'f
  lhs :: 'o

definition cell3 :: "('g, 's, 'o, 'f) bempp \<Rightarrow> 'g \<Rightarrow> ('s, 'o, 'f) cell3_vars" where
  \<comment> \<open>primed names are the cell's variables, unprimed ones the fields that keep them\<close>
  "cell3 L grid =
     (case single_layer_and_hypersingular_pair L grid ''dual'' True of
        (slp', hyp', base_slp') \<Rightarrow>
          let rank_one_op' =
                RankOneBoundaryOperator L
                  (op_domain L hyp') (op_range L hyp') (op_dual_to_range L hyp');
              hyp_regularized' = op_add L hyp' rank_one_op';
              rhs_fun' = GridFunction L (op_range L slp') one_fun;
              lhs' = op_mul L slp' hyp_regularized'
          in \<lparr>slp = slp', hyp = hyp', base_slp = base_slp', rank_one_op = rank_one_op',
              hyp_regularized = hyp_regularized', rhs_fun = rhs_fun', lhs = lhs'\<rparr>)"

record 'f cell4_vars =
  sol_x :: 'f
  info :: int
  it_count :: int
  sol_fun :: 'f
  capacity :: real

definition cell4 :: "('g, 's, 'o, 'f) bempp \<Rightarrow> ('s, 'o, 'f) cell3_vars \<Rightarrow> 'f cell4_vars option" where
  \<comment> \<open>\<open>sol_x\<close> keeps the notebook's \<open>x\<close>; the two \<^verbatim>\<open>print\<close> calls show
      \<open>it_count\<close> and \<open>capacity\<close>\<close>
  "cell4 L c3 =
     (case gmres L (lhs c3) (rhs_fun c3) True True of
        (x', info', it_count') \<Rightarrow> do {
          let sol_fun' = op_apply L (hyp_regularized c3) x';
          i \<leftarrow> item2 (integrate L sol_fun') 0 0;
          Some \<lparr>sol_x = x', info = info', it_count = it_count', sol_fun = sol_fun',
                capacity = - i\<rparr>
        })"

definition cell5 :: "('g, 's, 'o, 'f) bempp \<Rightarrow> 'g \<Rightarrow> int ndarray2" where
  "cell5 L grid = barycentric_descendents_map L grid"

record ('o, 'f) cell7_vars =
  map_to_base_space :: 'o
  base_sol_fun :: 'f
  base_slp_times_sol :: 'f

definition cell7 :: "('g, 's, 'o, 'f) bempp \<Rightarrow> 'f \<Rightarrow> 'o \<Rightarrow> ('o, 'f) cell7_vars" where
  "cell7 L sol_fun' base_slp' =
     (let map_to_base_space' =
            sparse_identity L (gf_space L sol_fun') (op_domain L base_slp') (op_domain L base_slp');
          base_sol_fun' = op_apply L map_to_base_space' sol_fun';
          base_slp_times_sol' = op_apply L base_slp' base_sol_fun'
      in \<lparr>map_to_base_space = map_to_base_space', base_sol_fun = base_sol_fun',
          base_slp_times_sol = base_slp_times_sol'\<rparr>)"

subsection \<open>Cell 8: the error estimator\<close>

text \<open>
  \<^verbatim>\<open>
  bary_grid = grid.barycentric_grid()
  local_errors_squared_bary = np.zeros(bary_grid.leaf_view.entity_count(0), dtype='float64')
  local_errors = np.zeros(grid.leaf_view.entity_count(0), dtype='float64')
  bary_index_set = bary_grid.leaf_view.index_set()
  for element in bary_grid.leaf_view.entity_iterator(0):
      index = bary_index_set.entity_index(element)
      gradient_norm = base_slp_times_sol.surface_grad_norm(element)
      local_error_squared = diameter(element) * gradient_norm**2
      local_errors_squared_bary[index] = local_error_squared
  for m in range(bary_map.shape[0]):
      for n in range(bary_map.shape[1]):
          local_errors[m] += local_errors_squared_bary[bary_map[m, n]]
  local_errors = np.sqrt(local_errors)
  total_error = np.linalg.norm(local_errors)
  print("Total H^(-1/2) error estimate for normal derivative: {0}".format(
          np.linalg.norm(local_errors)))
  print("Error estimate for capacity: {0}".format(total_error**2))
  \<close>
  The first loop runs over the elements of the barycentric grid and stores
  \<^verbatim>\<open>diameter(element) * gradient_norm**2\<close> at the element's index. The loop is
  given the index set's \<^verbatim>\<open>entity_index\<close> and the function whose
  \<^verbatim>\<open>surface_grad_norm\<close> is taken; \<open>lesb\<close> is \<^verbatim>\<open>local_errors_squared_bary\<close>.
\<close>

fun bary_loop ::
  "(element \<Rightarrow> int) \<Rightarrow> (element \<Rightarrow> real) \<Rightarrow> element list \<Rightarrow> real list \<Rightarrow> real list option" where
  "bary_loop ix grad_norm [] lesb = Some lesb"
| "bary_loop ix grad_norm (element # rest) lesb = do {
     let index = ix element;
     let gradient_norm = grad_norm element;
     d \<leftarrow> diameter element;
     let local_error_squared = d * gradient_norm\<^sup>2;
     updated \<leftarrow> np_set lesb index local_error_squared;
     bary_loop ix grad_norm rest updated
   }"

text \<open>
  The second loop nest: \<^verbatim>\<open>local_errors[m] += local_errors_squared_bary[bary_map[m, n]]\<close>
  for \<open>n\<close> in \<^verbatim>\<open>range(bary_map.shape[1])\<close>, for \<open>m\<close> in \<^verbatim>\<open>range(bary_map.shape[0])\<close>;
  \<open>errs\<close> is \<^verbatim>\<open>local_errors\<close>.
\<close>

fun sum_row :: "int ndarray2 \<Rightarrow> real list \<Rightarrow> nat \<Rightarrow> nat list \<Rightarrow> real list \<Rightarrow> real list option" where
  "sum_row bary_map lesb m [] errs = Some errs"
| "sum_row bary_map lesb m (n # ns) errs = do {
     old \<leftarrow> np_get errs (int m);
     v \<leftarrow> np_get lesb (entry bary_map m n);
     updated \<leftarrow> np_set errs (int m) (old + v);
     sum_row bary_map lesb m ns updated
   }"

fun sum_rows ::
  "int ndarray2 \<Rightarrow> real list \<Rightarrow> nat list \<Rightarrow> real list \<Rightarrow> real list option" where
  "sum_rows bary_map lesb [] errs = Some errs"
| "sum_rows bary_map lesb (m # ms) errs = do {
     updated \<leftarrow> sum_row bary_map lesb m [0..<shape1 bary_map] errs;
     sum_rows bary_map lesb ms updated
   }"

record cell8_vars =
  local_errors_squared_bary :: "real list"
  local_errors :: "real list"
  total_error :: real
  printed_total :: real
  printed_capacity_error :: real

definition bary_errors :: "('g, 's, 'o, 'f) bempp \<Rightarrow> 'g \<Rightarrow> 'f \<Rightarrow> real list option" where
  \<comment> \<open>the part of the cell under
      \<^verbatim>\<open># Compute the error estimates on the barycentric refinement\<close>\<close>
  "bary_errors L grid base_slp_times_sol' =
     (let bary_grid = barycentric_grid L grid;
          lesb0 = zeros (entity_count (leaf_view L bary_grid) 0);
          bary_index_set = index_set (leaf_view L bary_grid)
      in bary_loop (entity_index bary_index_set)
           (surface_grad_norm L base_slp_times_sol')
           (entity_iterator (leaf_view L bary_grid) 0) lesb0)"

definition cell8 ::
  "('g, 's, 'o, 'f) bempp \<Rightarrow> 'g \<Rightarrow> int ndarray2 \<Rightarrow> 'f \<Rightarrow> cell8_vars option" where
  "cell8 L grid bary_map base_slp_times_sol' = do {
     let local_errors0 = zeros (entity_count (leaf_view L grid) 0);
     lesb \<leftarrow> bary_errors L grid base_slp_times_sol';
     summed \<leftarrow> sum_rows bary_map lesb [0..<shape0 bary_map] local_errors0;
     let local_errors' = np_sqrt summed;
     let total_error' = linalg_norm local_errors';
     Some \<lparr>local_errors_squared_bary = lesb, local_errors = local_errors',
           total_error = total_error', printed_total = linalg_norm local_errors',
           printed_capacity_error = total_error'\<^sup>2\<rparr>
   }"

subsection \<open>The notebook\<close>

text \<open>
  The cells in order, up to the estimator; what the notebook prints and the
  per-element indicators are its report. Cell 9 only reorders the indicators for a
  plot and is left out.
\<close>

record report =
  iterations :: int
  reported_capacity :: real
  indicators :: "real list"
  total_estimate :: real
  capacity_error_estimate :: real

definition notebook :: "('g, 's, 'o, 'f) bempp \<Rightarrow> report option" where
  "notebook L = do {
     let grid = cell2 L;
     let c3 = cell3 L grid;
     c4 \<leftarrow> cell4 L c3;
     let bary_map = cell5 L grid;
     let c7 = cell7 L (sol_fun c4) (base_slp c3);
     c8 \<leftarrow> cell8 L grid bary_map (base_slp_times_sol c7);
     Some \<lparr>iterations = it_count c4, reported_capacity = capacity c4,
           indicators = local_errors c8, total_estimate = printed_total c8,
           capacity_error_estimate = printed_capacity_error c8\<rparr>
   }"

subsection \<open>The Krylov solver of the specification\<close>

text \<open>
  Modelled from the spec: the Krylov solver behind \<^verbatim>\<open>bempp.api.linalg.gmres\<close> is not
  in the sources, only its call in cell 4 is. The specification's stopping rule is:
  relative residual below a tolerance or an iteration cap reached, whichever first; on
  cap reached without the tolerance met, the solver returns its best iterate with the
  convergence flag false. Its output is the iterate, the flag and the iteration count.
  The iteration itself is a parameter \<open>step\<close>, the relative residual a parameter
  \<open>relres\<close>; \<open>best\<close> is the iterate of least residual so far.
\<close>

record 'v solve_result =
  iterate :: 'v
  converged :: bool
  iteration_count :: nat

function krylov ::
  "('v \<Rightarrow> 'v) \<Rightarrow> ('v \<Rightarrow> real) \<Rightarrow> real \<Rightarrow> nat \<Rightarrow> nat \<Rightarrow> 'v \<Rightarrow> 'v \<Rightarrow> 'v solve_result" where
  "krylov step relres tol cap k best v =
     (let best' = (if relres v < relres best then v else best) in
      if relres v < tol then \<lparr>iterate = v, converged = True, iteration_count = k\<rparr>
      else if cap \<le> k then \<lparr>iterate = best', converged = False, iteration_count = k\<rparr>
      else krylov step relres tol cap (Suc k) best' (step v))"
  by pat_completeness auto
termination
  by (relation "measure (\<lambda>(step, relres, tol, cap, k, best, v). cap - k)") auto

definition krylov_solve ::
  "('v \<Rightarrow> 'v) \<Rightarrow> ('v \<Rightarrow> real) \<Rightarrow> real \<Rightarrow> nat \<Rightarrow> 'v \<Rightarrow> 'v solve_result" where
  \<comment> \<open>Modelled from the spec: the solve, started at the initial guess \<open>x0\<close>\<close>
  "krylov_solve step relres tol cap x0 = krylov step relres tol cap 0 x0 x0"

declare krylov.simps [simp del]

subsection \<open>The barycentric refinement of the specification\<close>

text \<open>
  Modelled from the spec: the barycentric refinement and its descendant map
  (\<^verbatim>\<open>grid.barycentric_grid()\<close> and \<^verbatim>\<open>grid.barycentric_descendents_map()\<close> of Bempp)
  are not in the sources; the notebook only reads them. The specification describes one
  level of barycentric subdivision of each triangle into six sub-triangles, and a map
  from each original element index to the ordered list of its six descendant indices.
  Here a mesh is the list of its triangles, each with its three corner positions; a
  triangle is cut by its centroid and the midpoints of its edges; the refinement lists
  the sub-triangles parent after parent, and the map gives the positions of a parent's
  sub-triangles in that list. The area of a triangle is half the norm of the cross
  product of two edge vectors.
\<close>

type_synonym point = "real \<times> real \<times> real"

type_synonym facet = "point \<times> point \<times> point"

fun midpoint :: "point \<Rightarrow> point \<Rightarrow> point" where
  "midpoint (x1, y1, z1) (x2, y2, z2) = ((x1 + x2) / 2, (y1 + y2) / 2, (z1 + z2) / 2)"

fun centroid :: "facet \<Rightarrow> point" where
  "centroid ((x1, y1, z1), (x2, y2, z2), (x3, y3, z3)) =
     ((x1 + x2 + x3) / 3, (y1 + y2 + y3) / 3, (z1 + z2 + z3) / 3)"

fun subdivide :: "facet \<Rightarrow> facet list" where
  "subdivide (a, b, c) =
     (let g = centroid (a, b, c); mab = midpoint a b; mbc = midpoint b c; mca = midpoint c a
      in [(a, mab, g), (mab, b, g), (b, mbc, g), (mbc, c, g), (c, mca, g), (mca, a, g)])"

fun cross_sq :: "facet \<Rightarrow> real" where
  "cross_sq ((x1, y1, z1), (x2, y2, z2), (x3, y3, z3)) =
     ((y2 - y1) * (z3 - z1) - (z2 - z1) * (y3 - y1))\<^sup>2 +
     ((z2 - z1) * (x3 - x1) - (x2 - x1) * (z3 - z1))\<^sup>2 +
     ((x2 - x1) * (y3 - y1) - (y2 - y1) * (x3 - x1))\<^sup>2"

definition area :: "facet \<Rightarrow> real" where
  "area t = sqrt (cross_sq t) / 2"

definition spec_barycentric_grid :: "facet list \<Rightarrow> facet list" where
  "spec_barycentric_grid mesh = concat (map subdivide mesh)"

definition spec_descendents_map :: "facet list \<Rightarrow> nat list list" where
  "spec_descendents_map mesh = map (\<lambda>m. [6 * m..<6 * m + 6]) [0..<length mesh]"

definition right_facet :: facet where
  \<comment> \<open>a right triangle with legs of length 6\<close>
  "right_facet = ((0, 0, 0), (6, 0, 0), (0, 6, 0))"

subsection \<open>Reference notions and a small concrete run\<close>

text \<open>
  The diameter of the specification: the largest of the three distances between
  corners. An index \<open>i\<close> is in range for an axis of length \<open>n\<close> when NumPy accepts it.
\<close>

definition diam :: "element \<Rightarrow> real" where
  "diam e = Max {euclid_dist (corner e 0) (corner e 1),
                 euclid_dist (corner e 0) (corner e 2),
                 euclid_dist (corner e 1) (corner e 2)}"

definition in_range :: "nat \<Rightarrow> int \<Rightarrow> bool" where
  "in_range n i = (- int n \<le> i \<and> i < int n)"

text \<open>
  The refined grid of a grid as cell 8 reads it: its elements, their number, and the
  position in \<^verbatim>\<open>local_errors_squared_bary\<close> that an element's index denotes.
\<close>

definition bary_elements :: "('g, 's, 'o, 'f) bempp \<Rightarrow> 'g \<Rightarrow> element list" where
  "bary_elements L grid = entity_iterator (leaf_view L (barycentric_grid L grid)) 0"

definition bary_count :: "('g, 's, 'o, 'f) bempp \<Rightarrow> 'g \<Rightarrow> nat" where
  "bary_count L grid = entity_count (leaf_view L (barycentric_grid L grid)) 0"

definition bary_position :: "('g, 's, 'o, 'f) bempp \<Rightarrow> 'g \<Rightarrow> element \<Rightarrow> nat" where
  "bary_position L grid e =
     pos (bary_count L grid)
       (entity_index (index_set (leaf_view L (barycentric_grid L grid))) e)"

text \<open>
  What the library is expected to deliver, as far as the loops depend on it: every
  refined element is a triangle whose index is in range, different elements have
  different indices, the descendant map has no more rows than the grid has elements, and
  its entries are indices of refined elements.
\<close>

definition bary_ready :: "('g, 's, 'o, 'f) bempp \<Rightarrow> 'g \<Rightarrow> bool" where
  "bary_ready L grid =
     list_all (\<lambda>e. triangle e \<and>
                 in_range (bary_count L grid)
                   (entity_index (index_set (leaf_view L (barycentric_grid L grid))) e))
       (bary_elements L grid)"

definition bary_indices_distinct :: "('g, 's, 'o, 'f) bempp \<Rightarrow> 'g \<Rightarrow> bool" where
  "bary_indices_distinct L grid = distinct (map (bary_position L grid) (bary_elements L grid))"

definition map_ready :: "('g, 's, 'o, 'f) bempp \<Rightarrow> 'g \<Rightarrow> int ndarray2 \<Rightarrow> bool" where
  "map_ready L grid bary_map =
     (shape0 bary_map \<le> entity_count (leaf_view L grid) 0 \<and>
      list_all (\<lambda>m. list_all (\<lambda>n. in_range (bary_count L grid) (entry bary_map m n))
                       [0..<shape1 bary_map])
        [0..<shape0 bary_map])"

definition row_sum :: "int ndarray2 \<Rightarrow> real list \<Rightarrow> nat \<Rightarrow> real" where
  \<comment> \<open>the sum over the descendants of element \<open>m\<close>\<close>
  "row_sum bary_map lesb m =
     (\<Sum>n<shape1 bary_map. lesb ! pos (length lesb) (entry bary_map m n))"

text \<open>
  A small library to run the notebook on. Operators and grid functions are real numbers
  (an operator acts by multiplication), the solver divides, the surface has area 3, the
  grid has one element, and its refined grid has two: right triangles with sides 3, 4, 5
  and 6, 8, 10.
\<close>

definition tri :: "real list list \<Rightarrow> element" where
  \<comment> \<open>the element whose corner array has the given rows\<close>
  "tri rows = \<lparr>geometry = \<lparr>corners =
     \<lparr>shape0 = length rows, shape1 = 3, entry = (\<lambda>i j. rows ! i ! j)\<rparr>\<rparr>\<rparr>"

definition tri345 :: element where
  "tri345 = tri [[0, 0, 3], [0, 4, 0], [0, 0, 0]]"

definition tri6810 :: element where
  "tri6810 = tri [[0, 0, 6], [0, 8, 0], [0, 0, 0]]"

definition toy_view :: "nat \<Rightarrow> leaf_view" where
  "toy_view level =
     (if level = 0
      then \<lparr>entity_count = (\<lambda>codim. 1), entity_iterator = (\<lambda>codim. [tri6810]),
            index_set = \<lparr>entity_index = (\<lambda>e. 0)\<rparr>\<rparr>
      else \<lparr>entity_count = (\<lambda>codim. 2), entity_iterator = (\<lambda>codim. [tri345, tri6810]),
            index_set = \<lparr>entity_index =
              (\<lambda>e. if entry (corners (geometry e)) 0 2 = 3 then 0 else 1)\<rparr>\<rparr>)"

definition toy_map :: "int ndarray2" where
  "toy_map = \<lparr>shape0 = 1, shape1 = 2, entry = (\<lambda>m n. int n)\<rparr>"

definition toy :: "(nat, unit, real, real) bempp" where
  "toy = \<lparr>reentrant_cube = (\<lambda>h refinement_factor. 0),
          single_layer_and_hypersingular_pair = (\<lambda>grid spaces return_base_slp. (2, 0, 2)),
          RankOneBoundaryOperator = (\<lambda>d r dr. 1),
          op_domain = (\<lambda>A. ()), op_range = (\<lambda>A. ()), op_dual_to_range = (\<lambda>A. ()),
          op_add = (+), op_mul = (*), op_apply = (*),
          GridFunction = (\<lambda>space f. case f [] [] 0 [0] of None \<Rightarrow> 0 | Some res \<Rightarrow> hd res),
          gmres = (\<lambda>A b use_strong_form return_iteration_count. (b / A, 0, 1)),
          gf_space = (\<lambda>f. ()),
          integrate = (\<lambda>f. \<lparr>shape0 = 1, shape1 = 1, entry = (\<lambda>i j. 3 * f)\<rparr>),
          surface_grad_norm =
            (\<lambda>f e. if entry (corners (geometry e)) 0 2 = 3 then 2 * \<bar>f\<bar> else \<bar>f\<bar>),
          sparse_identity = (\<lambda>d r dr. 1),
          barycentric_descendents_map = (\<lambda>grid. toy_map),
          barycentric_grid = Suc,
          leaf_view = toy_view\<rparr>"

definition stalled_toy :: "(nat, unit, real, real) bempp" where
  \<comment> \<open>the small library with a solver that reports \<open>info = 1\<close>: not converged\<close>
  "stalled_toy =
     toy\<lparr>gmres := (\<lambda>A b use_strong_form return_iteration_count. (b / A, 1, 1))\<rparr>"

subsection \<open>Facts about the arrays\<close>

lemma sum_list_nth_sum: "(\<Sum>x\<leftarrow>xs. f x) = (\<Sum>k<length xs. f (xs ! k))"
proof -
  have "(\<Sum>x\<leftarrow>xs. f x) = (\<Sum>k = 0..<length xs. f (xs ! k))"
    by (simp add: sum_list_sum_nth)
  then show ?thesis by (simp add: lessThan_atLeast0)
qed

lemma linalg_norm_vsub:
  assumes "length a = length b"
  shows "linalg_norm (vsub a b) = euclid_dist a b"
proof -
  have "(\<Sum>x\<leftarrow>map2 (-) a b. x\<^sup>2) = (\<Sum>k<length (map2 (-) a b). ((map2 (-) a b) ! k)\<^sup>2)"
    by (rule sum_list_nth_sum)
  also have "\<dots> = (\<Sum>k<length a. (a ! k - b ! k)\<^sup>2)"
    using assms by simp
  finally show ?thesis by (simp add: linalg_norm_def vsub_def euclid_dist_def)
qed

lemma euclid_dist_nonneg: "0 \<le> euclid_dist a b"
  by (simp add: euclid_dist_def sum_nonneg)

lemma linalg_norm_nonneg: "0 \<le> linalg_norm v"
  by (auto simp: linalg_norm_def intro!: sum_list_nonneg)

lemma upt3: "[0..<3] = [0, 1, 2]"
  by (simp add: upt_rec)

lemma sqrt_values: "sqrt 9 = 3" "sqrt 16 = 4" "sqrt 25 = 5" "sqrt 36 = 6" "sqrt 64 = 8"
  "sqrt 100 = 10"
  by (rule real_sqrt_unique; simp)+

lemma corner_tri:
  "corner (tri rows) j = map (\<lambda>i. rows ! i ! j) [0..<length rows]"
  by (simp add: corner_def tri_def)

lemma triangle_tri: "triangle (tri rows)"
  by (simp add: triangle_def tri_def)

lemma diameter_columns:
  assumes "triangle e"
  shows "diameter e = Some (Max {linalg_norm (vsub (corner e 0) (corner e 1)),
                                 linalg_norm (vsub (corner e 0) (corner e 2)),
                                 linalg_norm (vsub (corner e 1) (corner e 2))})"
proof -
  let ?cs = "corners (geometry e)"
  have c: "column ?cs 0 = Some (corner e 0)" "column ?cs 1 = Some (corner e 1)"
    "column ?cs 2 = Some (corner e 2)"
    using assms by (simp_all add: triangle_def column_def corner_def)
  show ?thesis
    by (simp add: diameter_def c Let_def del: One_nat_def)
qed

lemma diameter_triangle:
  assumes "diameter e = Some d"
  shows "triangle e"
  using assms
  by (auto simp: diameter_def triangle_def column_def Let_def split: if_splits bind_splits)

lemma corner_length: "length (corner e i) = length (corner e j)"
  by (simp add: corner_def)

lemma diameter_diam:
  assumes "triangle e"
  shows "diameter e = Some (diam e)"
  by (simp add: diameter_columns [OF assms] diam_def linalg_norm_vsub [OF corner_length]
      del: One_nat_def)

lemma diam_nonneg: "0 \<le> diam e"
  by (simp add: diam_def euclid_dist_nonneg le_max_iff_disj del: One_nat_def)

lemma diam_tri345: "diam tri345 = 5"
  by (simp add: diam_def tri345_def corner_tri upt3 euclid_dist_def lessThan_Suc
      numeral_3_eq_3 sqrt_values)

lemma diam_tri6810: "diam tri6810 = 10"
  by (simp add: diam_def tri6810_def corner_tri upt3 euclid_dist_def lessThan_Suc
      numeral_3_eq_3 sqrt_values)

subsection \<open>Facts about the loops of cell 8\<close>

lemma np_index_in_range: "in_range n i \<Longrightarrow> np_index n i = Some (pos n i)"
  by (simp add: np_index_def in_range_def)

lemma pos_less: "in_range n i \<Longrightarrow> pos n i < n"
  by (auto simp: pos_def in_range_def)

lemma np_set_in_range: "in_range (length a) i \<Longrightarrow> np_set a i v = Some (a[pos (length a) i := v])"
  by (simp add: np_set_def np_index_in_range)

lemma np_get_in_range: "in_range (length a) i \<Longrightarrow> np_get a i = Some (a ! pos (length a) i)"
  by (simp add: np_get_def np_index_in_range)

lemma in_range_nat: "m < n \<Longrightarrow> in_range n (int m)"
  by (simp add: in_range_def)

lemma pos_nat: "pos n (int m) = m"
  by (simp add: pos_def)

lemma bary_loop_result:
  assumes "\<forall>e\<in>set es. triangle e \<and> in_range n (ix e)"
    and "length lesb = n"
    and "distinct (map (\<lambda>e. pos n (ix e)) es)"
  shows "\<exists>out. bary_loop ix g es lesb = Some out \<and> length out = n \<and>
           (\<forall>e\<in>set es. out ! pos n (ix e) = diam e * (g e)\<^sup>2) \<and>
           (\<forall>k. k \<notin> (\<lambda>e. pos n (ix e)) ` set es \<longrightarrow> out ! k = lesb ! k)"
  using assms
proof (induction es arbitrary: lesb)
  case Nil
  then show ?case by simp
next
  case (Cons e es)
  let ?v = "diam e * (g e)\<^sup>2"
  let ?k = "pos n (ix e)"
  let ?lesb = "lesb[?k := ?v]"
  have tri: "triangle e" and rng: "in_range n (ix e)"
    using Cons.prems(1) by simp_all
  have step: "bary_loop ix g (e # es) lesb = bary_loop ix g es ?lesb"
    using Cons.prems(2) rng by (simp add: diameter_diam [OF tri] np_set_in_range Let_def)
  have "\<exists>out. bary_loop ix g es ?lesb = Some out \<and> length out = n \<and>
           (\<forall>e\<in>set es. out ! pos n (ix e) = diam e * (g e)\<^sup>2) \<and>
           (\<forall>k. k \<notin> (\<lambda>e. pos n (ix e)) ` set es \<longrightarrow> out ! k = ?lesb ! k)"
    using Cons.prems by (intro Cons.IH) simp_all
  then obtain out where out: "bary_loop ix g es ?lesb = Some out" "length out = n"
    "\<forall>e\<in>set es. out ! pos n (ix e) = diam e * (g e)\<^sup>2"
    "\<forall>k. k \<notin> (\<lambda>e. pos n (ix e)) ` set es \<longrightarrow> out ! k = ?lesb ! k"
    by blast
  have fresh: "?k \<notin> (\<lambda>e. pos n (ix e)) ` set es"
    using Cons.prems(3) by simp
  have "out ! ?k = ?lesb ! ?k"
    using out(4) fresh by blast
  also have "\<dots> = ?v"
    using pos_less [OF rng] Cons.prems(2) by simp
  finally have here: "out ! ?k = ?v" .
  have rest: "out ! k = lesb ! k" if "k \<notin> (\<lambda>e. pos n (ix e)) ` set (e # es)" for k
  proof -
    from that have "k \<noteq> ?k" and "k \<notin> (\<lambda>e. pos n (ix e)) ` set es" by auto
    with out(4) show ?thesis by simp
  qed
  show ?case
    using step out(1,2,3) here rest by auto
qed

lemma bary_loop_nonneg:
  assumes "bary_loop ix g es lesb = Some out" and "\<forall>v\<in>set lesb. 0 \<le> v"
  shows "\<forall>v\<in>set out. 0 \<le> v"
  using assms
proof (induction es arbitrary: lesb)
  case Nil
  then show ?case by simp
next
  case (Cons e es)
  from Cons.prems(1) obtain d upd where d: "diameter e = Some d"
    and upd: "np_set lesb (ix e) (d * (g e)\<^sup>2) = Some upd"
    and rest: "bary_loop ix g es upd = Some out"
    by (auto simp: Let_def split: bind_splits)
  have "0 \<le> d"
    using d diameter_diam [OF diameter_triangle [OF d]] diam_nonneg [of e] by simp
  then have v: "0 \<le> d * (g e)\<^sup>2" by simp
  from upd obtain k where "upd = lesb[k := d * (g e)\<^sup>2]"
    by (auto simp: np_set_def)
  then have "\<forall>v\<in>set upd. 0 \<le> v"
    using Cons.prems(2) v by (auto dest!: set_update_subset_insert [THEN subsetD])
  from Cons.IH [OF rest this] show ?case .
qed

lemma sum_row_result:
  assumes "m < length errs" and "\<forall>n\<in>set ns. in_range (length lesb) (entry bm m n)"
  shows "sum_row bm lesb m ns errs =
           Some (errs[m := errs ! m + (\<Sum>n\<leftarrow>ns. lesb ! pos (length lesb) (entry bm m n))])"
  using assms
proof (induction ns arbitrary: errs)
  case Nil
  then show ?case by simp
next
  case (Cons n ns)
  let ?v = "lesb ! pos (length lesb) (entry bm m n)"
  let ?errs = "errs[m := errs ! m + ?v]"
  have g1: "np_get errs (int m) = Some (errs ! m)"
    using Cons.prems(1) by (simp add: np_get_in_range in_range_nat pos_nat)
  have g2: "np_get lesb (entry bm m n) = Some ?v"
    using Cons.prems(2) by (simp add: np_get_in_range)
  have s: "np_set errs (int m) (errs ! m + ?v) = Some ?errs"
    using Cons.prems(1) by (simp add: np_set_in_range in_range_nat pos_nat)
  have "sum_row bm lesb m (n # ns) errs = sum_row bm lesb m ns ?errs"
    by (simp add: g1 g2 s)
  also have "\<dots> = Some (?errs[m := ?errs ! m + (\<Sum>n\<leftarrow>ns. lesb ! pos (length lesb) (entry bm m n))])"
    using Cons.prems by (intro Cons.IH) simp_all
  finally show ?case
    using Cons.prems(1) by (simp add: add.assoc)
qed

lemma sum_list_upt: "(\<Sum>n\<leftarrow>[0..<N]. f n) = (\<Sum>n<N. f n)"
  by (simp add: interv_sum_list_conv_sum_set_nat lessThan_atLeast0)

lemma sum_rows_result:
  assumes "\<forall>m\<in>set ms. m < length errs \<and> (\<forall>n<shape1 bm. in_range (length lesb) (entry bm m n))"
    and "distinct ms"
  shows "\<exists>out. sum_rows bm lesb ms errs = Some out \<and> length out = length errs \<and>
           (\<forall>m<length errs. out ! m = (if m \<in> set ms then errs ! m + row_sum bm lesb m else errs ! m))"
  using assms
proof (induction ms arbitrary: errs)
  case Nil
  then show ?case by simp
next
  case (Cons m ms)
  let ?errs = "errs[m := errs ! m + row_sum bm lesb m]"
  have m: "m < length errs" using Cons.prems(1) by simp
  have row: "sum_row bm lesb m [0..<shape1 bm] errs = Some ?errs"
    using Cons.prems(1) m by (simp add: sum_row_result sum_list_upt row_sum_def)
  have "\<exists>out. sum_rows bm lesb ms ?errs = Some out \<and> length out = length ?errs \<and>
           (\<forall>k<length ?errs. out ! k = (if k \<in> set ms then ?errs ! k + row_sum bm lesb k else ?errs ! k))"
    using Cons.prems by (intro Cons.IH) simp_all
  then obtain out where out: "sum_rows bm lesb ms ?errs = Some out" "length out = length errs"
    "\<forall>k<length errs. out ! k = (if k \<in> set ms then ?errs ! k + row_sum bm lesb k else ?errs ! k)"
    by auto
  have "m \<notin> set ms" using Cons.prems(2) by simp
  then have "\<forall>k<length errs. out ! k =
      (if k \<in> set (m # ms) then errs ! k + row_sum bm lesb k else errs ! k)"
    using out(3) m by (auto simp: nth_list_update)
  then show ?case
    using row out(1,2) by simp
qed

lemma zeros_length: "length (zeros n) = n" by (simp add: zeros_def)
lemma zeros_nth: "m < n \<Longrightarrow> zeros n ! m = 0" by (simp add: zeros_def)

lemma bary_errors_result:
  assumes "bary_ready L grid" and "bary_indices_distinct L grid"
  shows "\<exists>lesb. bary_errors L grid f = Some lesb \<and> length lesb = bary_count L grid \<and>
           (\<forall>T\<in>set (bary_elements L grid).
              lesb ! bary_position L grid T = diam T * (surface_grad_norm L f T)\<^sup>2)"
proof -
  let ?ix = "entity_index (index_set (leaf_view L (barycentric_grid L grid)))"
  let ?n = "bary_count L grid"
  have a: "\<forall>e\<in>set (bary_elements L grid). triangle e \<and> in_range ?n (?ix e)"
    using assms(1) by (simp add: bary_ready_def list_all_iff)
  have d: "distinct (map (\<lambda>e. pos ?n (?ix e)) (bary_elements L grid))"
    using assms(2) by (simp add: bary_indices_distinct_def bary_position_def [abs_def])
  from bary_loop_result [OF a zeros_length d, of "surface_grad_norm L f"]
  show ?thesis
    by (auto simp: bary_errors_def Let_def bary_elements_def bary_count_def bary_position_def)
qed

lemma bary_errors_nonneg:
  assumes "bary_errors L grid f = Some lesb"
  shows "\<forall>v\<in>set lesb. 0 \<le> v"
  using assms
  by (auto simp: bary_errors_def Let_def zeros_def dest!: bary_loop_nonneg)

lemma bary_loop_length:
  "bary_loop ix g es lesb = Some out \<Longrightarrow> length out = length lesb"
proof (induction es arbitrary: lesb)
  case Nil
  then show ?case by simp
next
  case (Cons e es)
  from Cons.prems obtain d upd where upd: "np_set lesb (ix e) (d * (g e)\<^sup>2) = Some upd"
    and rest: "bary_loop ix g es upd = Some out"
    by (auto simp: Let_def split: bind_splits)
  from upd have "length upd = length lesb" by (auto simp: np_set_def)
  with Cons.IH [OF rest] show ?case by simp
qed

lemma bary_errors_length:
  "bary_errors L grid f = Some lesb \<Longrightarrow> length lesb = bary_count L grid"
  by (auto simp: bary_errors_def Let_def bary_count_def zeros_def dest!: bary_loop_length)

lemma aggregate_result:
  assumes le: "bary_errors L grid f = Some lesb" and mr: "map_ready L grid bm"
  shows "\<exists>c8. cell8 L grid bm f = Some c8 \<and>
           local_errors_squared_bary c8 = lesb \<and>
           length (local_errors c8) = entity_count (leaf_view L grid) 0 \<and>
           (\<forall>m<length (local_errors c8). local_errors c8 ! m =
               (if m < shape0 bm then sqrt (row_sum bm lesb m) else 0)) \<and>
           total_error c8 = linalg_norm (local_errors c8) \<and>
           printed_total c8 = total_error c8 \<and>
           printed_capacity_error c8 = (total_error c8)\<^sup>2"
proof -
  let ?K = "entity_count (leaf_view L grid) 0"
  have len: "length lesb = bary_count L grid" using le by (rule bary_errors_length)
  have a: "\<forall>m\<in>set [0..<shape0 bm]. m < length (zeros ?K) \<and>
             (\<forall>n<shape1 bm. in_range (length lesb) (entry bm m n))"
    using mr by (auto simp: map_ready_def list_all_iff len zeros_length)
  from sum_rows_result [OF a] obtain out where
    out: "sum_rows bm lesb [0..<shape0 bm] (zeros ?K) = Some out" "length out = ?K"
      "\<forall>m<?K. out ! m = (if m \<in> set [0..<shape0 bm] then zeros ?K ! m + row_sum bm lesb m else zeros ?K ! m)"
    by (auto simp: zeros_length)
  have vals: "\<forall>m<?K. np_sqrt out ! m = (if m < shape0 bm then sqrt (row_sum bm lesb m) else 0)"
    using out(2,3) by (simp add: np_sqrt_def zeros_nth)
  show ?thesis
    using le out(1,2) vals by (simp add: cell8_def Let_def np_sqrt_def)
qed

lemma bary_loop_Some:
  assumes "\<forall>e\<in>set es. triangle e \<and> in_range (length lesb) (ix e)"
  shows "\<exists>out. bary_loop ix g es lesb = Some out"
  using assms
proof (induction es arbitrary: lesb)
  case Nil
  then show ?case by simp
next
  case (Cons e es)
  have tri: "triangle e" and rng: "in_range (length lesb) (ix e)"
    using Cons.prems by simp_all
  let ?upd = "lesb[pos (length lesb) (ix e) := diam e * (g e)\<^sup>2]"
  have "\<exists>out. bary_loop ix g es ?upd = Some out"
    using Cons.prems by (intro Cons.IH) simp
  then show ?case
    using rng by (simp add: diameter_diam [OF tri] np_set_in_range Let_def)
qed

lemma bary_errors_Some:
  assumes "bary_ready L grid"
  shows "\<exists>lesb. bary_errors L grid f = Some lesb"
proof -
  let ?ix = "entity_index (index_set (leaf_view L (barycentric_grid L grid)))"
  have "\<forall>e\<in>set (bary_elements L grid). triangle e \<and> in_range (length (zeros (bary_count L grid))) (?ix e)"
    using assms by (simp add: bary_ready_def list_all_iff zeros_length)
  from bary_loop_Some [OF this, of "surface_grad_norm L f"] show ?thesis
    by (simp add: bary_errors_def Let_def bary_elements_def bary_count_def)
qed

lemma row_sum_nonneg:
  assumes "\<forall>v\<in>set lesb. 0 \<le> v" and "\<forall>n<shape1 bm. in_range (length lesb) (entry bm m n)"
  shows "0 \<le> row_sum bm lesb m"
  unfolding row_sum_def
proof (rule sum_nonneg)
  fix n assume "n \<in> {..<shape1 bm}"
  then have "pos (length lesb) (entry bm m n) < length lesb"
    using assms(2) by (simp add: pos_less)
  then show "0 \<le> lesb ! pos (length lesb) (entry bm m n)"
    using assms(1) by simp
qed

lemma linalg_norm_sum: "linalg_norm v = sqrt (\<Sum>m<length v. (v ! m)\<^sup>2)"
  by (simp add: linalg_norm_def sum_list_nth_sum [of power2 v])

lemma sum_if_less:
  fixes f :: "nat \<Rightarrow> real"
  assumes "M \<le> K"
  shows "(\<Sum>m<K. if m < M then f m else 0) = (\<Sum>m<M. f m)"
proof -
  have "(\<Sum>m<K. if m < M then f m else 0) = (\<Sum>m\<in>{..<K} \<inter> {m. m < M}. f m)"
    by (simp add: sum.inter_restrict)
  also have "{..<K} \<inter> {m. m < M} = {..<M}"
    using assms by auto
  finally show ?thesis .
qed

lemma toy_entries:
  "entry (corners (geometry tri345)) 0 2 = 3" "entry (corners (geometry tri6810)) 0 2 = 6"
  by (simp_all add: tri345_def tri6810_def tri_def)

lemma toy_triangles: "triangle tri345" "triangle tri6810"
  by (simp_all add: tri345_def tri6810_def triangle_tri)

lemma toy_diameters: "diameter tri345 = Some 5" "diameter tri6810 = Some 10"
  by (simp_all add: diameter_diam toy_triangles diam_tri345 diam_tri6810)

lemma toy_bary:
  "bary_elements toy 0 = [tri345, tri6810]" "bary_count toy 0 = 2"
  "bary_position toy 0 tri345 = 0" "bary_position toy 0 tri6810 = 1"
  by (simp_all add: bary_elements_def bary_count_def bary_position_def toy_def toy_view_def
      toy_entries pos_def)

lemma toy_bary_ready: "bary_ready toy 0"
  by (simp add: bary_ready_def toy_bary toy_triangles in_range_def)
    (simp add: toy_def toy_view_def toy_entries)

lemma toy_bary_distinct: "bary_indices_distinct toy 0"
  by (simp add: bary_indices_distinct_def toy_bary)

lemma toy_map_ready: "map_ready toy 0 toy_map"
  by (simp add: map_ready_def toy_bary in_range_def)
     (simp add: toy_map_def toy_def toy_view_def upt_rec)

lemma zeros2: "zeros 2 = [0, 0]"
  by (simp add: zeros_def numeral_2_eq_2)

lemma toy_bary_errors: "bary_errors toy 0 (- 1) = Some [20, 10]"
  by (simp add: bary_errors_def toy_def toy_view_def zeros2 toy_entries toy_diameters
      np_set_def np_index_def pos_def)

subsection \<open>Facts about the cells\<close>

lemma one_fun_constant: "one_fun p nu d (r # rs) = Some (- 1 # rs)"
  by (simp add: one_fun_def np_set_def np_index_def pos_def)

lemma cell3_fields:
  assumes "single_layer_and_hypersingular_pair L grid ''dual'' True = (V, W, Vb)"
  shows "slp (cell3 L grid) = V" "hyp (cell3 L grid) = W" "base_slp (cell3 L grid) = Vb"
    "rank_one_op (cell3 L grid) =
       RankOneBoundaryOperator L (op_domain L W) (op_range L W) (op_dual_to_range L W)"
    "hyp_regularized (cell3 L grid) = op_add L W (rank_one_op (cell3 L grid))"
    "rhs_fun (cell3 L grid) = GridFunction L (op_range L V) one_fun"
    "lhs (cell3 L grid) = op_mul L V (hyp_regularized (cell3 L grid))"
  using assms by (simp_all add: cell3_def Let_def)

lemma gmres_update_fields:
  "cell2 (L\<lparr>gmres := solver\<rparr>) = cell2 L"
  "cell3 (L\<lparr>gmres := solver\<rparr>) g = cell3 L g"
  "cell5 (L\<lparr>gmres := solver\<rparr>) g = cell5 L g"
  "cell7 (L\<lparr>gmres := solver\<rparr>) phi Vb = cell7 L phi Vb"
  "cell8 (L\<lparr>gmres := solver\<rparr>) g bm f = cell8 L g bm f"
  by (simp_all add: cell2_def cell3_def cell5_def cell7_def cell8_def bary_errors_def)

text \<open>The whole notebook on the small library.\<close>

lemma toy_cell8:
  "cell8 toy 0 toy_map (- 1) =
     Some \<lparr>local_errors_squared_bary = [20, 10], local_errors = [sqrt 30],
           total_error = sqrt 30, printed_total = sqrt 30, printed_capacity_error = 30\<rparr>"
proof -
  have rows: "sum_rows toy_map [20, 10] [0..<shape0 toy_map] (zeros (entity_count (leaf_view toy 0) 0))
      = Some [30]"
    by (simp add: toy_map_def toy_def toy_view_def zeros_def upt_rec [of 0] numeral_2_eq_2
        np_get_def np_set_def np_index_def pos_def)
  have norm: "linalg_norm [sqrt 30] = sqrt 30"
    by (simp add: linalg_norm_def)
  show ?thesis
    by (simp add: cell8_def toy_bary_errors rows np_sqrt_def norm Let_def)
qed

lemma notebook_toy:
  "notebook toy =
     Some \<lparr>iterations = 1, reported_capacity = 3 / 2, indicators = [sqrt 30],
           total_estimate = sqrt 30, capacity_error_estimate = 30\<rparr>"
proof -
  have c2: "cell2 toy = 0"
    by (simp add: cell2_def toy_def)
  have c3: "cell3 toy 0 =
      \<lparr>slp = 2, hyp = 0, base_slp = 2, rank_one_op = 1, hyp_regularized = 1,
       rhs_fun = - 1, lhs = 2\<rparr>"
    by (simp add: cell3_def toy_def one_fun_constant Let_def)
  have c4: "cell4 toy (cell3 toy 0) =
      Some \<lparr>sol_x = - (1 / 2), info = 0, it_count = 1, sol_fun = - (1 / 2), capacity = 3 / 2\<rparr>"
    unfolding c3 by (simp add: cell4_def toy_def item2_def Let_def)
  have c5: "cell5 toy 0 = toy_map"
    by (simp add: cell5_def toy_def)
  have c7: "base_slp_times_sol (cell7 toy (- (1 / 2)) 2) = - 1"
    by (simp add: cell7_def toy_def Let_def)
  have c3b: "base_slp (cell3 toy 0) = 2"
    by (simp add: c3)
  show ?thesis
    by (simp add: notebook_def Let_def c2 c4 c5 c3b c7 toy_cell8)
qed

lemma notebook_ignores_info:
  "notebook (L\<lparr>gmres := \<lambda>A b s r. case gmres L A b s r of (x', i, k) \<Rightarrow> (x', other i, k)\<rparr>)
     = notebook L"
proof -
  let ?L = "L\<lparr>gmres := \<lambda>A b s r. case gmres L A b s r of (x', i, k) \<Rightarrow> (x', other i, k)\<rparr>"
  have c4: "cell4 ?L c3 = map_option (\<lambda>c. c\<lparr>info := other (info c)\<rparr>) (cell4 L c3)" for c3
    by (cases "gmres L (lhs c3) (rhs_fun c3) True True")
       (auto simp: cell4_def Let_def split: bind_splits)
  show ?thesis
    by (cases "cell4 L (cell3 L (cell2 L))")
       (simp_all add: notebook_def gmres_update_fields c4 Let_def)
qed

lemma notebook_report:
  assumes solve: "gmres L (lhs (cell3 L (cell2 L))) (rhs_fun (cell3 L (cell2 L))) True True
                    = (xs, flag, k)"
    and integral: "item2 (integrate L (op_apply L (hyp_regularized (cell3 L (cell2 L))) xs)) 0 0
                    = Some v"
    and ready: "bary_ready L (cell2 L)"
    and mr: "map_ready L (cell2 L) (cell5 L (cell2 L))"
  shows "\<exists>c8. cell8 L (cell2 L) (cell5 L (cell2 L))
                (base_slp_times_sol
                   (cell7 L (op_apply L (hyp_regularized (cell3 L (cell2 L))) xs)
                      (base_slp (cell3 L (cell2 L))))) = Some c8 \<and>
              notebook L =
                Some \<lparr>iterations = k, reported_capacity = - v, indicators = local_errors c8,
                      total_estimate = printed_total c8,
                      capacity_error_estimate = printed_capacity_error c8\<rparr>"
proof -
  let ?c3 = "cell3 L (cell2 L)"
  let ?phi = "op_apply L (hyp_regularized ?c3) xs"
  let ?f = "base_slp_times_sol (cell7 L ?phi (base_slp ?c3))"
  have c4: "cell4 L ?c3 = Some \<lparr>sol_x = xs, info = flag, it_count = k, sol_fun = ?phi,
      capacity = - v\<rparr>"
    by (simp add: cell4_def solve integral Let_def)
  from bary_errors_Some [OF ready] obtain lesb where
    le: "bary_errors L (cell2 L) ?f = Some lesb"
    by blast
  from aggregate_result [OF le mr] obtain c8 where
    c8: "cell8 L (cell2 L) (cell5 L (cell2 L)) ?f = Some c8"
    by blast
  have "notebook L = Some \<lparr>iterations = k, reported_capacity = - v, indicators = local_errors c8,
      total_estimate = printed_total c8, capacity_error_estimate = printed_capacity_error c8\<rparr>"
    by (simp add: notebook_def Let_def c4 c8)
  with c8 show ?thesis by blast
qed

lemma stalled_fields:
  "cell2 stalled_toy = 0" "cell5 stalled_toy 0 = toy_map"
  "cell3 stalled_toy 0 = cell3 toy 0"
  "cell8 stalled_toy 0 bm f = cell8 toy 0 bm f"
  "cell7 stalled_toy phi Vb = cell7 toy phi Vb"
  "bary_ready stalled_toy 0" "map_ready stalled_toy 0 toy_map"
  using toy_bary_ready toy_map_ready
  by (simp_all add: stalled_toy_def gmres_update_fields bary_ready_def map_ready_def
      bary_count_def bary_elements_def)
     (simp_all add: cell2_def cell5_def toy_def)

subsection \<open>Facts about the solver of the specification\<close>

lemma krylov_cap:
  assumes "\<forall>j\<le>cap - k. \<not> relres ((step ^^ j) v) < tol" and "k \<le> cap"
  shows "converged (krylov step relres tol cap k best v) = False \<and>
         iteration_count (krylov step relres tol cap k best v) = cap \<and>
         (iterate (krylov step relres tol cap k best v) = best \<or>
          (\<exists>j\<le>cap - k. iterate (krylov step relres tol cap k best v) = (step ^^ j) v)) \<and>
         relres (iterate (krylov step relres tol cap k best v)) \<le> relres best \<and>
         (\<forall>j\<le>cap - k. relres (iterate (krylov step relres tol cap k best v))
                          \<le> relres ((step ^^ j) v))"
  using assms
proof (induction "cap - k" arbitrary: k best v)
  case 0
  then have k: "k = cap" by simp
  have "\<not> relres v < tol" using "0.prems"(1) by (auto dest: spec [of _ 0])
  then have "krylov step relres tol cap k best v =
      \<lparr>iterate = (if relres v < relres best then v else best), converged = False,
       iteration_count = cap\<rparr>"
    using k by (subst krylov.simps) (simp add: Let_def)
  moreover have "cap - k = 0" using k by simp
  ultimately show ?case
    by (auto intro: exI [of _ 0])
next
  case (Suc d)
  let ?best = "if relres v < relres best then v else best"
  have k: "k < cap" "cap - Suc k = d" using Suc.hyps(2) by simp_all
  have here: "\<not> relres v < tol" using Suc.prems(1) by (auto dest: spec [of _ 0])
  have unfold: "krylov step relres tol cap k best v = krylov step relres tol cap (Suc k) ?best (step v)"
    using here k(1) by (simp add: krylov.simps [of step relres tol cap k best v] Let_def)
  have later: "\<forall>j\<le>cap - Suc k. \<not> relres ((step ^^ j) (step v)) < tol"
  proof (intro allI impI)
    fix j assume "j \<le> cap - Suc k"
    then have "Suc j \<le> cap - k" using k by simp
    with Suc.prems(1) have "\<not> relres ((step ^^ Suc j) v) < tol" by blast
    then show "\<not> relres ((step ^^ j) (step v)) < tol" by (simp add: funpow_swap1)
  qed
  have IH: "converged (krylov step relres tol cap (Suc k) ?best (step v)) = False \<and>
         iteration_count (krylov step relres tol cap (Suc k) ?best (step v)) = cap \<and>
         (iterate (krylov step relres tol cap (Suc k) ?best (step v)) = ?best \<or>
          (\<exists>j\<le>cap - Suc k. iterate (krylov step relres tol cap (Suc k) ?best (step v)) = (step ^^ j) (step v))) \<and>
         relres (iterate (krylov step relres tol cap (Suc k) ?best (step v))) \<le> relres ?best \<and>
         (\<forall>j\<le>cap - Suc k. relres (iterate (krylov step relres tol cap (Suc k) ?best (step v)))
                          \<le> relres ((step ^^ j) (step v)))"
    using k later by (intro Suc.hyps(1)) simp_all
  let ?r = "krylov step relres tol cap (Suc k) ?best (step v)"
  have le_best: "relres (iterate ?r) \<le> relres best" and le_v: "relres (iterate ?r) \<le> relres v"
    using IH by (auto split: if_splits)
  have origin: "iterate ?r = best \<or> (\<exists>j\<le>cap - k. iterate ?r = (step ^^ j) v)"
  proof -
    from IH consider "iterate ?r = ?best"
      | j where "j \<le> cap - Suc k" "iterate ?r = (step ^^ j) (step v)"
      by blast
    then show ?thesis
    proof cases
      case 1
      then have "iterate ?r = best \<or> iterate ?r = (step ^^ 0) v" by (simp split: if_splits)
      then show ?thesis by blast
    next
      case 2
      then have "Suc j \<le> cap - k" "iterate ?r = (step ^^ Suc j) v"
        using k by (simp_all add: funpow_swap1)
      then show ?thesis by blast
    qed
  qed
  have all: "\<forall>j\<le>cap - k. relres (iterate ?r) \<le> relres ((step ^^ j) v)"
  proof (intro allI impI)
    fix j assume j: "j \<le> cap - k"
    show "relres (iterate ?r) \<le> relres ((step ^^ j) v)"
    proof (cases j)
      case 0
      then show ?thesis using le_v by simp
    next
      case (Suc i)
      then have "i \<le> cap - Suc k" using j by simp
      with IH have "relres (iterate ?r) \<le> relres ((step ^^ i) (step v))" by blast
      then show ?thesis by (simp add: Suc funpow_swap1)
    qed
  qed
  show ?case
    unfolding unfold using IH le_best origin all by blast
qed

lemma krylov_converged:
  "converged (krylov step relres tol cap k best v) \<Longrightarrow>
   relres (iterate (krylov step relres tol cap k best v)) < tol"
proof (induction step relres tol cap k best v rule: krylov.induct)
  case (1 step relres tol cap k best v)
  show ?case
  proof (cases "relres v < tol")
    case True
    then show ?thesis by (subst krylov.simps) (simp add: Let_def)
  next
    case False
    show ?thesis
    proof (cases "cap \<le> k")
      case True
      with False "1.prems" show ?thesis by (subst (asm) krylov.simps) (simp add: Let_def)
    next
      case stepping: False
      let ?best = "if relres v < relres best then v else best"
      have eq: "krylov step relres tol cap k best v = krylov step relres tol cap (Suc k) ?best (step v)"
        using False stepping by (subst krylov.simps) (simp add: Let_def)
      from "1.IH" [OF refl False stepping] "1.prems" show ?thesis
        by (simp add: eq)
    qed
  qed
qed

subsection \<open>Facts about the refinement of the specification\<close>

lemma length_subdivide: "length (subdivide t) = 6"
  by (cases t) (simp add: Let_def)

lemma sixth_sq:
  fixes p q r P Q R :: real
  assumes "p = P / 6 \<or> p = - P / 6" "q = Q / 6 \<or> q = - Q / 6" "r = R / 6 \<or> r = - R / 6"
  shows "p\<^sup>2 + q\<^sup>2 + r\<^sup>2 = (P\<^sup>2 + Q\<^sup>2 + R\<^sup>2) / 36"
proof -
  have "p\<^sup>2 = P\<^sup>2 / 36" "q\<^sup>2 = Q\<^sup>2 / 36" "r\<^sup>2 = R\<^sup>2 / 36"
    using assms by (auto simp: power2_eq_square)
  then show ?thesis by (simp add: add_divide_distrib)
qed

lemma cross_sq_subdivide:
  assumes "s \<in> set (subdivide t)"
  shows "cross_sq s = cross_sq t / 36"
proof -
  obtain x1 y1 z1 x2 y2 z2 x3 y3 z3 where t: "t = ((x1, y1, z1), (x2, y2, z2), (x3, y3, z3))"
    by (metis prod_cases3)
  let ?g = "((x1 + x2 + x3) / 3, (y1 + y2 + y3) / 3, (z1 + z2 + z3) / 3)"
  let ?mab = "((x1 + x2) / 2, (y1 + y2) / 2, (z1 + z2) / 2)"
  let ?mbc = "((x2 + x3) / 2, (y2 + y3) / 2, (z2 + z3) / 2)"
  let ?mca = "((x3 + x1) / 2, (y3 + y1) / 2, (z3 + z1) / 2)"
  have six: "cross_sq ((x1, y1, z1), ?mab, ?g) = cross_sq t / 36"
    "cross_sq (?mab, (x2, y2, z2), ?g) = cross_sq t / 36"
    "cross_sq ((x2, y2, z2), ?mbc, ?g) = cross_sq t / 36"
    "cross_sq (?mbc, (x3, y3, z3), ?g) = cross_sq t / 36"
    "cross_sq ((x3, y3, z3), ?mca, ?g) = cross_sq t / 36"
    "cross_sq (?mca, (x1, y1, z1), ?g) = cross_sq t / 36"
    unfolding t cross_sq.simps by (rule sixth_sq; simp add: field_simps)+
  from assms have "s \<in> {((x1, y1, z1), ?mab, ?g), (?mab, (x2, y2, z2), ?g),
      ((x2, y2, z2), ?mbc, ?g), (?mbc, (x3, y3, z3), ?g),
      ((x3, y3, z3), ?mca, ?g), (?mca, (x1, y1, z1), ?g)}"
    by (simp add: t Let_def)
  with six show ?thesis by auto
qed

lemma area_subdivide:
  assumes "s \<in> set (subdivide t)"
  shows "area s = area t / 6"
proof -
  have "sqrt (cross_sq t / 36) = sqrt (cross_sq t) / sqrt (6\<^sup>2)"
    by (simp add: real_sqrt_divide)
  also have "\<dots> = sqrt (cross_sq t) / 6"
    by simp
  finally show ?thesis
    by (simp add: area_def cross_sq_subdivide [OF assms])
qed

lemma area_subdivide_sum: "(\<Sum>s\<leftarrow>subdivide t. area s) = area t"
proof -
  have "map area (subdivide t) = map (\<lambda>s. area t / 6) (subdivide t)"
    by (rule map_cong [OF refl]) (rule area_subdivide)
  then have "(\<Sum>s\<leftarrow>subdivide t. area s) = (\<Sum>s\<leftarrow>subdivide t. area t / 6)"
    by (rule arg_cong)
  also have "\<dots> = area t"
    by (simp add: sum_list_triv length_subdivide)
  finally show ?thesis .
qed

lemma concat_blocks_nth:
  assumes "\<forall>x\<in>set xs. length (f x) = k" and "m < length xs" and "i < k"
  shows "concat (map f xs) ! (k * m + i) = f (xs ! m) ! i"
  using assms
proof (induction xs arbitrary: m)
  case Nil
  then show ?case by simp
next
  case (Cons x xs)
  show ?case
  proof (cases m)
    case 0
    with Cons.prems show ?thesis by (simp add: nth_append)
  next
    case (Suc j)
    have "k * m + i = length (f x) + (k * j + i)"
      using Cons.prems(1) Suc by simp
    then have "concat (map f (x # xs)) ! (k * m + i) = concat (map f xs) ! (k * j + i)"
      by (simp add: nth_append)
    also have "\<dots> = f (xs ! j) ! i"
      using Cons.prems Suc by (intro Cons.IH) simp_all
    finally show ?thesis by (simp add: Suc)
  qed
qed

lemma concat_blocks_length:
  assumes "\<forall>x\<in>set xs. length (f x) = k"
  shows "length (concat (map f xs)) = k * length xs"
  using assms by (induction xs) simp_all

lemma spec_grid_length: "length (spec_barycentric_grid mesh) = 6 * length mesh"
  by (simp add: spec_barycentric_grid_def concat_blocks_length [where k = 6] length_subdivide)

lemma spec_grid_nth:
  assumes "m < length mesh" and "i < 6"
  shows "spec_barycentric_grid mesh ! (6 * m + i) = subdivide (mesh ! m) ! i"
  unfolding spec_barycentric_grid_def
  using assms by (intro concat_blocks_nth) (simp_all add: length_subdivide)

lemma concat_index_blocks: "concat (map (\<lambda>m. [6 * m..<6 * m + 6]) [0..<N]) = [0..<6 * N]"
proof (induction N)
  case 0
  then show ?case by simp
next
  case (Suc N)
  have "[0..<6 * Suc N] = [0..<6 * N] @ [6 * N..<6 * N + 6]"
    using upt_add_eq_append [of 0 "6 * N" 6] by (simp add: add.commute)
  with Suc show ?case by (simp add: add.commute)
qed

lemma spec_map_row:
  assumes "m < length mesh"
  shows "spec_descendents_map mesh ! m = [6 * m..<6 * m + 6]"
  using assms by (simp add: spec_descendents_map_def)

lemma spec_row_areas:
  assumes "m < length mesh"
  shows "map (\<lambda>n. area (spec_barycentric_grid mesh ! n)) [6 * m..<6 * m + 6] =
         map area (subdivide (mesh ! m))"
proof (rule nth_equalityI)
  show "length (map (\<lambda>n. area (spec_barycentric_grid mesh ! n)) [6 * m..<6 * m + 6]) =
      length (map area (subdivide (mesh ! m)))"
    by (simp add: length_subdivide)
next
  fix i
  assume "i < length (map (\<lambda>n. area (spec_barycentric_grid mesh ! n)) [6 * m..<6 * m + 6])"
  then have i: "i < 6" by simp
  then show "map (\<lambda>n. area (spec_barycentric_grid mesh ! n)) [6 * m..<6 * m + 6] ! i =
      map area (subdivide (mesh ! m)) ! i"
    using assms by (simp add: spec_grid_nth length_subdivide)
qed

lemma area_right_facet: "area right_facet = 18"
proof -
  have "sqrt (36\<^sup>2) = (36::real)" by simp
  then show ?thesis by (simp add: area_def right_facet_def)
qed

subsection \<open>The diameter\<close>

text \<open>
  Claim C8. For every element with three corners, \<open>diameter\<close> returns the maximum of the
  three pairwise distances between its corners, \<open>max(|c0 - c1|, |c0 - c2|, |c1 - c2|)\<close>,
  where \<open>|a - b|\<close> is the Euclidean distance of the two coordinate lists.
\<close>

theorem diameter_max_pairwise:
  assumes "triangle e"
  shows "diameter e = Some (Max {euclid_dist (corner e 0) (corner e 1),
                                 euclid_dist (corner e 0) (corner e 2),
                                 euclid_dist (corner e 1) (corner e 2)})"
proof -
  have d: "linalg_norm (vsub (corner e i) (corner e j)) = euclid_dist (corner e i) (corner e j)"
    for i j
    by (rule linalg_norm_vsub) (rule corner_length)
  from diameter_columns [OF assms] show ?thesis
    by (simp only: d)
qed

text \<open>The theorem at the 3-4-5 triangle: its diameter is the hypotenuse.\<close>

theorem diameter_max_pairwise_witness: "triangle tri345 \<and> diameter tri345 = Some 5"
proof -
  have t: "triangle tri345"
    by (simp add: tri345_def triangle_tri)
  have c: "corner tri345 0 = [0, 0, 0]" "corner tri345 1 = [0, 4, 0]"
    "corner tri345 2 = [3, 0, 0]"
    by (simp_all add: tri345_def corner_tri upt3)
  have d: "euclid_dist [0, 0, 0] [0, 4, 0] = 4" "euclid_dist [0, 0, 0] [3, 0, 0] = 3"
    "euclid_dist [0, 4, 0] [3, 0, 0] = 5"
    by (simp_all add: euclid_dist_def lessThan_Suc numeral_3_eq_3 sqrt_values)
  show ?thesis
    using t diameter_max_pairwise [OF t] by (simp add: c d del: One_nat_def)
qed

subsection \<open>The local indicators on the refined grid\<close>

text \<open>
  Claim C4. For every element \<open>T\<close> of the barycentric refinement, the value stored for
  \<open>T\<close> in \<^verbatim>\<open>local_errors_squared_bary\<close> is \<open>diam(T)\<close> times the square of the
  surface gradient norm on \<open>T\<close> of the base single-layer operator applied to the lifted
  solution: \<open>base_slp * (identity * sol_fun)\<close>. Nothing else enters, so the right-hand
  side contributes nothing. The loop returns when the refined elements are triangles
  with indices in range, and each element keeps its own value when the indices are
  pairwise different.
\<close>

theorem local_error_squared_formula:
  assumes "bary_ready L grid" and "bary_indices_distinct L grid"
  shows "\<exists>lesb. bary_errors L grid (base_slp_times_sol (cell7 L phi Vb)) = Some lesb \<and>
           length lesb = bary_count L grid \<and>
           (\<forall>T\<in>set (bary_elements L grid).
              lesb ! bary_position L grid T =
                diam T *
                (surface_grad_norm L
                   (op_apply L Vb
                      (op_apply L
                         (sparse_identity L (gf_space L phi) (op_domain L Vb) (op_domain L Vb))
                         phi)) T)\<^sup>2)"
proof -
  have lift: "base_slp_times_sol (cell7 L phi Vb) =
      op_apply L Vb
        (op_apply L (sparse_identity L (gf_space L phi) (op_domain L Vb) (op_domain L Vb)) phi)"
    by (simp add: cell7_def Let_def)
  from bary_errors_result [OF assms, of "base_slp_times_sol (cell7 L phi Vb)"]
  show ?thesis
    by (simp only: lift)
qed

text \<open>
  The theorem on the small library: the lifted solution is \<open>-1/2\<close>, the base
  operator doubles it, and the two elements get \<open>5 * 2\<^sup>2\<close> and \<open>10 * 1\<^sup>2\<close>.
\<close>

theorem local_error_squared_formula_witness:
  "bary_ready toy 0 \<and> bary_indices_distinct toy 0 \<and>
   (\<exists>lesb. bary_errors toy 0 (base_slp_times_sol (cell7 toy (- 1 / 2) 2)) = Some lesb \<and>
      length lesb = 2 \<and> lesb ! 0 = 20 \<and> lesb ! 1 = 10)"
proof -
  from local_error_squared_formula [OF toy_bary_ready toy_bary_distinct, of "- 1 / 2" 2]
  obtain lesb where
    l: "bary_errors toy 0 (base_slp_times_sol (cell7 toy (- 1 / 2) 2)) = Some lesb"
      "length lesb = bary_count toy 0"
      "\<forall>T\<in>set (bary_elements toy 0). lesb ! bary_position toy 0 T =
          diam T * (surface_grad_norm toy
            (op_apply toy 2 (op_apply toy
               (sparse_identity toy (gf_space toy (- 1 / 2)) (op_domain toy 2) (op_domain toy 2))
               (- 1 / 2))) T)\<^sup>2"
    by blast
  have g: "surface_grad_norm toy (op_apply toy 2 (op_apply toy
               (sparse_identity toy (gf_space toy (- 1 / 2)) (op_domain toy 2) (op_domain toy 2))
               (- 1 / 2))) T = (if entry (corners (geometry T)) 0 2 = 3 then 2 else 1)" for T
    by (simp add: toy_def)
  from l(3) [unfolded g] have "lesb ! 0 = 20" "lesb ! 1 = 10"
    by (simp_all add: toy_bary toy_entries diam_tri345 diam_tri6810)
  with l(1,2) toy_bary_ready toy_bary_distinct show ?thesis
    by (simp add: toy_bary)
qed

subsection \<open>Aggregation to the original grid\<close>

text \<open>
  Claim C5. For every element \<open>m\<close> of the original grid (every row of the descendant
  map), the indicator \<open>local_errors[m]\<close> is the square root of the sum of the squared
  indicators of the descendants \<open>bary_map[m, n]\<close>; the global indicator
  \<open>total_error\<close> is the Euclidean norm of the indicator vector, and the printed
  capacity error estimate is its square, which is the sum of all the squared
  indicators the map refers to.
\<close>

theorem aggregated_indicators:
  assumes "bary_ready L grid" and "map_ready L grid bm"
  shows "\<exists>c8. cell8 L grid bm f = Some c8 \<and>
           bary_errors L grid f = Some (local_errors_squared_bary c8) \<and>
           (\<forall>m<shape0 bm. local_errors c8 ! m =
              sqrt (\<Sum>n<shape1 bm. local_errors_squared_bary c8 !
                      pos (length (local_errors_squared_bary c8)) (entry bm m n))) \<and>
           total_error c8 = sqrt (\<Sum>m<length (local_errors c8). (local_errors c8 ! m)\<^sup>2) \<and>
           printed_total c8 = total_error c8 \<and>
           printed_capacity_error c8 = (total_error c8)\<^sup>2 \<and>
           printed_capacity_error c8 =
             (\<Sum>m<shape0 bm. \<Sum>n<shape1 bm. local_errors_squared_bary c8 !
                      pos (length (local_errors_squared_bary c8)) (entry bm m n))"
proof -
  let ?K = "entity_count (leaf_view L grid) 0"
  from bary_errors_Some [OF assms(1)] obtain lesb where le: "bary_errors L grid f = Some lesb"
    by blast
  from aggregate_result [OF le assms(2)] obtain c8 where
    c8: "cell8 L grid bm f = Some c8" "local_errors_squared_bary c8 = lesb"
      "length (local_errors c8) = ?K"
      "\<forall>m<length (local_errors c8). local_errors c8 ! m =
               (if m < shape0 bm then sqrt (row_sum bm lesb m) else 0)"
      "total_error c8 = linalg_norm (local_errors c8)"
      "printed_total c8 = total_error c8"
      "printed_capacity_error c8 = (total_error c8)\<^sup>2"
    by blast
  have MK: "shape0 bm \<le> ?K"
    using assms(2) by (simp add: map_ready_def)
  have rng: "\<forall>n<shape1 bm. in_range (length lesb) (entry bm m n)" if "m < shape0 bm" for m
    using assms(2) that by (simp add: map_ready_def list_all_iff bary_errors_length [OF le])
  have nonneg: "0 \<le> row_sum bm lesb m" if "m < shape0 bm" for m
    using bary_errors_nonneg [OF le] rng [OF that] by (rule row_sum_nonneg)
  have rows: "\<forall>m<shape0 bm. local_errors c8 ! m = sqrt (row_sum bm lesb m)"
    using c8(3,4) MK by simp
  have sq: "(\<Sum>m<length (local_errors c8). (local_errors c8 ! m)\<^sup>2) =
      (\<Sum>m<shape0 bm. row_sum bm lesb m)"
  proof -
    have "(\<Sum>m<length (local_errors c8). (local_errors c8 ! m)\<^sup>2) =
        (\<Sum>m<?K. if m < shape0 bm then row_sum bm lesb m else 0)"
      using c8(3,4) nonneg by (intro sum.cong) (auto simp: c8(3))
    also have "\<dots> = (\<Sum>m<shape0 bm. row_sum bm lesb m)"
      using MK by (rule sum_if_less)
    finally show ?thesis .
  qed
  have total: "total_error c8 = sqrt (\<Sum>m<length (local_errors c8). (local_errors c8 ! m)\<^sup>2)"
    using c8(5) by (simp add: linalg_norm_sum)
  have "0 \<le> (\<Sum>m<shape0 bm. row_sum bm lesb m)"
    using nonneg by (intro sum_nonneg) simp
  then have "(total_error c8)\<^sup>2 = (\<Sum>m<shape0 bm. row_sum bm lesb m)"
    by (simp add: total sq)
  then have cap: "printed_capacity_error c8 = (\<Sum>m<shape0 bm. row_sum bm lesb m)"
    using c8(7) by simp
  show ?thesis
    using c8(1,2,6,7) le rows total cap by (auto simp: row_sum_def)
qed

text \<open>
  The theorem on the small library: one element with two descendants whose squared
  indicators are 20 and 10.
\<close>

theorem aggregated_indicators_witness:
  "bary_ready toy 0 \<and> map_ready toy 0 toy_map \<and>
   (\<exists>c8. cell8 toy 0 toy_map (- 1) = Some c8 \<and>
      local_errors_squared_bary c8 = [20, 10] \<and>
      local_errors c8 ! 0 = sqrt 30 \<and>
      total_error c8 = printed_total c8 \<and>
      printed_capacity_error c8 = 30)"
proof -
  from aggregated_indicators [OF toy_bary_ready toy_map_ready, of "- 1"]
  obtain c8 where c8: "cell8 toy 0 toy_map (- 1) = Some c8"
    "bary_errors toy 0 (- 1) = Some (local_errors_squared_bary c8)"
    "\<forall>m<shape0 toy_map. local_errors c8 ! m =
        sqrt (\<Sum>n<shape1 toy_map. local_errors_squared_bary c8 !
                pos (length (local_errors_squared_bary c8)) (entry toy_map m n))"
    "printed_total c8 = total_error c8"
    "printed_capacity_error c8 =
       (\<Sum>m<shape0 toy_map. \<Sum>n<shape1 toy_map. local_errors_squared_bary c8 !
                pos (length (local_errors_squared_bary c8)) (entry toy_map m n))"
    by blast
  have lesb: "local_errors_squared_bary c8 = [20, 10]"
    using c8(2) by (simp add: toy_bary_errors)
  have row: "local_errors c8 ! 0 = sqrt 30"
    using c8(3) by (simp add: lesb toy_map_def pos_def lessThan_Suc numeral_2_eq_2)
  have cap: "printed_capacity_error c8 = 30"
    using c8(5) by (simp add: lesb toy_map_def pos_def lessThan_Suc numeral_2_eq_2)
  show ?thesis
    using toy_bary_ready toy_map_ready c8(1,4) lesb row cap by auto
qed

subsection \<open>The solve and the capacity\<close>

text \<open>
  Claim C1. Cells 3 and 4 hand the solver \<^verbatim>\<open>gmres\<close> the operator \<open>V * (W + R)\<close>,
  with \<open>V\<close> and \<open>W\<close> the single-layer and hypersingular operators of the pair and
  \<open>R\<close> the rank-one operator on the spaces of \<open>W\<close>, and as right-hand side the grid
  function in the range space of \<open>V\<close> built from \<open>one_fun\<close>, which writes \<open>-1\<close> at
  every point. With \<open>xs\<close> what the solver returns, the solution is
  \<open>(W + R) * xs\<close> and the capacity printed is minus the entry \<open>[0, 0]\<close> of its
  integral. If operators compose (\<open>(A * B) f = A (B f)\<close>) and \<open>xs\<close> solves the system
  it was asked for, the recovered solution solves \<open>V \<phi> = -1\<close>.
\<close>

theorem capacity_pipeline:
  assumes pair: "single_layer_and_hypersingular_pair L (reentrant_cube L (5 / 100) 1) ''dual'' True
                   = (V, W, Vb)"
    and R: "R = RankOneBoundaryOperator L (op_domain L W) (op_range L W) (op_dual_to_range L W)"
    and solve: "gmres L (op_mul L V (op_add L W R)) (GridFunction L (op_range L V) one_fun)
                  True True = (xs, flag, k)"
    and integral: "item2 (integrate L (op_apply L (op_add L W R) xs)) 0 0 = Some v"
  shows "\<exists>c4. cell4 L (cell3 L (cell2 L)) = Some c4 \<and>
           sol_x c4 = xs \<and> info c4 = flag \<and> it_count c4 = k \<and>
           sol_fun c4 = op_apply L (op_add L W R) xs \<and>
           capacity c4 = - v \<and>
           one_fun p nu d (r # rs) = Some (- 1 # rs) \<and>
           ((\<forall>A B f. op_apply L (op_mul L A B) f = op_apply L A (op_apply L B f)) \<and>
            op_apply L (op_mul L V (op_add L W R)) xs = GridFunction L (op_range L V) one_fun
            \<longrightarrow> op_apply L V (sol_fun c4) = GridFunction L (op_range L V) one_fun)"
proof -
  let ?c3 = "cell3 L (cell2 L)"
  have pair': "single_layer_and_hypersingular_pair L (cell2 L) ''dual'' True = (V, W, Vb)"
    using pair by (simp add: cell2_def)
  have reg: "hyp_regularized ?c3 = op_add L W R"
    by (simp add: cell3_fields [OF pair'] R)
  have sys: "lhs ?c3 = op_mul L V (op_add L W R)"
    "rhs_fun ?c3 = GridFunction L (op_range L V) one_fun"
    by (simp_all add: cell3_fields [OF pair'] R)
  have run: "cell4 L ?c3 = Some \<lparr>sol_x = xs, info = flag, it_count = k,
      sol_fun = op_apply L (op_add L W R) xs, capacity = - v\<rparr>"
    by (simp add: cell4_def sys solve reg integral Let_def)
  have recover: "op_apply L V (op_apply L (op_add L W R) xs) = GridFunction L (op_range L V) one_fun"
    if "\<forall>A B f. op_apply L (op_mul L A B) f = op_apply L A (op_apply L B f)"
      and "op_apply L (op_mul L V (op_add L W R)) xs = GridFunction L (op_range L V) one_fun"
    using that by metis
  then have imp: "(\<forall>A B f. op_apply L (op_mul L A B) f = op_apply L A (op_apply L B f)) \<and>
      op_apply L (op_mul L V (op_add L W R)) xs = GridFunction L (op_range L V) one_fun
      \<longrightarrow> op_apply L V (op_apply L (op_add L W R) xs) = GridFunction L (op_range L V) one_fun"
    by blast
  show ?thesis
  proof (intro exI conjI)
    show "cell4 L ?c3 = Some \<lparr>sol_x = xs, info = flag, it_count = k,
        sol_fun = op_apply L (op_add L W R) xs, capacity = - v\<rparr>"
      by (rule run)
  qed (simp_all only: cell4_vars.simps one_fun_constant, rule imp)
qed

text \<open>
  The theorem on the small library: \<open>V = 2\<close>, \<open>W = 0\<close>, \<open>R = 1\<close>, so the solver
  returns \<open>-1/2\<close>, which is also the solution; the surface has area 3 and the capacity
  is \<open>3/2\<close>.
\<close>

theorem capacity_pipeline_witness:
  "cell4 toy (cell3 toy (cell2 toy)) =
     Some \<lparr>sol_x = - 1 / 2, info = 0, it_count = 1, sol_fun = - 1 / 2, capacity = 3 / 2\<rparr> \<and>
   op_apply toy 2 (- 1 / 2) = GridFunction toy (op_range toy 2) one_fun"
proof -
  have pair: "single_layer_and_hypersingular_pair toy (reentrant_cube toy (5 / 100) 1) ''dual'' True
      = (2, 0, 2)"
    by (simp add: toy_def)
  have R: "1 = RankOneBoundaryOperator toy (op_domain toy 0) (op_range toy 0) (op_dual_to_range toy 0)"
    by (simp add: toy_def)
  have solve: "gmres toy (op_mul toy 2 (op_add toy 0 1)) (GridFunction toy (op_range toy 2) one_fun)
      True True = (- 1 / 2, 0, 1)"
    by (simp add: toy_def one_fun_constant)
  have integral: "item2 (integrate toy (op_apply toy (op_add toy 0 1) (- 1 / 2))) 0 0 = Some (- 3 / 2)"
    by (simp add: toy_def item2_def)
  have laws: "\<forall>A B f. op_apply toy (op_mul toy A B) f = op_apply toy A (op_apply toy B f)"
    by (simp add: toy_def)
  have solved: "op_apply toy (op_mul toy 2 (op_add toy 0 1)) (- 1 / 2) =
      GridFunction toy (op_range toy 2) one_fun"
    by (simp add: toy_def one_fun_constant)
  from capacity_pipeline [OF pair R solve integral]
  obtain c4 where c4: "cell4 toy (cell3 toy (cell2 toy)) = Some c4"
    "sol_x c4 = - 1 / 2" "info c4 = 0" "it_count c4 = 1"
    "sol_fun c4 = op_apply toy (op_add toy 0 1) (- 1 / 2)" "capacity c4 = - (- 3 / 2)"
    "(\<forall>A B f. op_apply toy (op_mul toy A B) f = op_apply toy A (op_apply toy B f)) \<and>
       op_apply toy (op_mul toy 2 (op_add toy 0 1)) (- 1 / 2) =
         GridFunction toy (op_range toy 2) one_fun
     \<longrightarrow> op_apply toy 2 (sol_fun c4) = GridFunction toy (op_range toy 2) one_fun"
    by blast
  have phi: "sol_fun c4 = - 1 / 2"
    using c4(5) by (simp add: toy_def)
  have "c4 = \<lparr>sol_x = - 1 / 2, info = 0, it_count = 1, sol_fun = - 1 / 2, capacity = 3 / 2\<rparr>"
    using c4(2,3,4,6) phi by (cases c4) simp
  moreover have "op_apply toy 2 (- 1 / 2) = GridFunction toy (op_range toy 2) one_fun"
    using c4(7) laws solved phi by simp
  ultimately show ?thesis
    using c4(1) by simp
qed

subsection \<open>The convergence flag\<close>

text \<open>
  Claim C10. The notebook never looks at \<open>info\<close>, the convergence flag \<^verbatim>\<open>gmres\<close>
  returns. First, whatever the solver reports there, the notebook runs the same cells
  and gives the same report (or stops with the same error). Second, the report is
  produced whatever the flag is: when the solver returns \<open>(xs, flag, k)\<close> with any
  \<open>flag\<close>, the integral of the solution has an entry \<open>[0, 0]\<close>, and the grids and
  the descendant map are well formed, the notebook reports \<open>k\<close> iterations, the
  capacity, and the indicators and estimates that cell 8 computes from the solution,
  and it reports the same with any other flag in place of \<open>flag\<close>.
\<close>

theorem info_never_inspected:
  "notebook (L\<lparr>gmres := \<lambda>A b s r. case gmres L A b s r of (x', i, k') \<Rightarrow> (x', other i, k')\<rparr>)
     = notebook L \<and>
   (gmres L (lhs (cell3 L (cell2 L))) (rhs_fun (cell3 L (cell2 L))) True True = (xs, flag, k) \<and>
    item2 (integrate L (op_apply L (hyp_regularized (cell3 L (cell2 L))) xs)) 0 0 = Some v \<and>
    bary_ready L (cell2 L) \<and> map_ready L (cell2 L) (cell5 L (cell2 L))
    \<longrightarrow>
    (\<exists>c8. cell8 L (cell2 L) (cell5 L (cell2 L))
             (base_slp_times_sol
                (cell7 L (op_apply L (hyp_regularized (cell3 L (cell2 L))) xs)
                   (base_slp (cell3 L (cell2 L))))) = Some c8 \<and>
           notebook L =
             Some \<lparr>iterations = k, reported_capacity = - v, indicators = local_errors c8,
                   total_estimate = printed_total c8,
                   capacity_error_estimate = printed_capacity_error c8\<rparr> \<and>
           notebook (L\<lparr>gmres := \<lambda>A b s r. case gmres L A b s r of
                                     (x', i, k') \<Rightarrow> (x', other i, k')\<rparr>) =
             Some \<lparr>iterations = k, reported_capacity = - v, indicators = local_errors c8,
                   total_estimate = printed_total c8,
                   capacity_error_estimate = printed_capacity_error c8\<rparr>))"
proof (intro conjI impI)
  show same: "notebook (L\<lparr>gmres := \<lambda>A b s r. case gmres L A b s r of
      (x', i, k') \<Rightarrow> (x', other i, k')\<rparr>) = notebook L"
    by (rule notebook_ignores_info)
  assume a: "gmres L (lhs (cell3 L (cell2 L))) (rhs_fun (cell3 L (cell2 L))) True True = (xs, flag, k) \<and>
    item2 (integrate L (op_apply L (hyp_regularized (cell3 L (cell2 L))) xs)) 0 0 = Some v \<and>
    bary_ready L (cell2 L) \<and> map_ready L (cell2 L) (cell5 L (cell2 L))"
  then have "\<exists>c8. cell8 L (cell2 L) (cell5 L (cell2 L))
                (base_slp_times_sol
                   (cell7 L (op_apply L (hyp_regularized (cell3 L (cell2 L))) xs)
                      (base_slp (cell3 L (cell2 L))))) = Some c8 \<and>
              notebook L =
                Some \<lparr>iterations = k, reported_capacity = - v, indicators = local_errors c8,
                      total_estimate = printed_total c8,
                      capacity_error_estimate = printed_capacity_error c8\<rparr>"
    by (intro notebook_report) simp_all
  then obtain c8 where c8: "cell8 L (cell2 L) (cell5 L (cell2 L))
                (base_slp_times_sol
                   (cell7 L (op_apply L (hyp_regularized (cell3 L (cell2 L))) xs)
                      (base_slp (cell3 L (cell2 L))))) = Some c8"
    and nb: "notebook L =
                Some \<lparr>iterations = k, reported_capacity = - v, indicators = local_errors c8,
                      total_estimate = printed_total c8,
                      capacity_error_estimate = printed_capacity_error c8\<rparr>"
    by blast
  show "\<exists>c8. cell8 L (cell2 L) (cell5 L (cell2 L))
             (base_slp_times_sol
                (cell7 L (op_apply L (hyp_regularized (cell3 L (cell2 L))) xs)
                   (base_slp (cell3 L (cell2 L))))) = Some c8 \<and>
           notebook L =
             Some \<lparr>iterations = k, reported_capacity = - v, indicators = local_errors c8,
                   total_estimate = printed_total c8,
                   capacity_error_estimate = printed_capacity_error c8\<rparr> \<and>
           notebook (L\<lparr>gmres := \<lambda>A b s r. case gmres L A b s r of
                                     (x', i, k') \<Rightarrow> (x', other i, k')\<rparr>) =
             Some \<lparr>iterations = k, reported_capacity = - v, indicators = local_errors c8,
                   total_estimate = printed_total c8,
                   capacity_error_estimate = printed_capacity_error c8\<rparr>"
    using c8 nb same by (intro exI [of _ c8]) simp
qed

text \<open>
  The theorem on the small library whose solver reports \<open>info = 1\<close>, not converged:
  the notebook still reports one iteration, capacity \<open>3/2\<close>, the indicator
  \<open>sqrt 30\<close> and the estimates, the same as with \<open>info = 0\<close>.
\<close>

theorem info_never_inspected_witness:
  "gmres stalled_toy (lhs (cell3 stalled_toy (cell2 stalled_toy)))
     (rhs_fun (cell3 stalled_toy (cell2 stalled_toy))) True True = (- 1 / 2, 1, 1) \<and>
   notebook stalled_toy =
     Some \<lparr>iterations = 1, reported_capacity = 3 / 2, indicators = [sqrt 30],
           total_estimate = sqrt 30, capacity_error_estimate = 30\<rparr> \<and>
   notebook (stalled_toy\<lparr>gmres := \<lambda>A b s r. case gmres stalled_toy A b s r of
                                        (x', i, k') \<Rightarrow> (x', 0, k')\<rparr>) =
     Some \<lparr>iterations = 1, reported_capacity = 3 / 2, indicators = [sqrt 30],
           total_estimate = sqrt 30, capacity_error_estimate = 30\<rparr>"
proof -
  have c3: "cell3 toy 0 =
      \<lparr>slp = 2, hyp = 0, base_slp = 2, rank_one_op = 1, hyp_regularized = 1,
       rhs_fun = - 1, lhs = 2\<rparr>"
    by (simp add: cell3_def toy_def one_fun_constant Let_def)
  have solve: "gmres stalled_toy (lhs (cell3 stalled_toy (cell2 stalled_toy)))
     (rhs_fun (cell3 stalled_toy (cell2 stalled_toy))) True True = (- 1 / 2, 1, 1)"
    by (simp add: stalled_fields c3) (simp add: stalled_toy_def)
  have integral: "item2 (integrate stalled_toy
      (op_apply stalled_toy (hyp_regularized (cell3 stalled_toy (cell2 stalled_toy))) (- 1 / 2)))
      0 0 = Some (- 3 / 2)"
    by (simp add: stalled_fields c3) (simp add: stalled_toy_def toy_def item2_def)
  have ready: "bary_ready stalled_toy (cell2 stalled_toy)"
    "map_ready stalled_toy (cell2 stalled_toy) (cell5 stalled_toy (cell2 stalled_toy))"
    by (simp_all add: stalled_fields)
  have f: "base_slp_times_sol
      (cell7 stalled_toy
         (op_apply stalled_toy (hyp_regularized (cell3 stalled_toy (cell2 stalled_toy))) (- 1 / 2))
         (base_slp (cell3 stalled_toy (cell2 stalled_toy)))) = - 1"
    by (simp add: stalled_fields c3) (simp add: stalled_toy_def toy_def cell7_def Let_def)
  from info_never_inspected [where L = stalled_toy and other = "\<lambda>i. 0" and xs = "- 1 / 2"
      and flag = 1 and k = 1 and v = "- 3 / 2"]
    solve integral ready
  obtain c8 where c8: "cell8 stalled_toy (cell2 stalled_toy) (cell5 stalled_toy (cell2 stalled_toy))
             (base_slp_times_sol
                (cell7 stalled_toy
                   (op_apply stalled_toy (hyp_regularized (cell3 stalled_toy (cell2 stalled_toy)))
                      (- 1 / 2))
                   (base_slp (cell3 stalled_toy (cell2 stalled_toy))))) = Some c8"
    and nb: "notebook stalled_toy =
             Some \<lparr>iterations = 1, reported_capacity = - (- 3 / 2), indicators = local_errors c8,
                   total_estimate = printed_total c8,
                   capacity_error_estimate = printed_capacity_error c8\<rparr>"
    and nb': "notebook (stalled_toy\<lparr>gmres := \<lambda>A b s r. case gmres stalled_toy A b s r of
                                     (x', i, k') \<Rightarrow> (x', 0, k')\<rparr>) =
             Some \<lparr>iterations = 1, reported_capacity = - (- 3 / 2), indicators = local_errors c8,
                   total_estimate = printed_total c8,
                   capacity_error_estimate = printed_capacity_error c8\<rparr>"
    by blast
  have "c8 = \<lparr>local_errors_squared_bary = [20, 10], local_errors = [sqrt 30],
           total_error = sqrt 30, printed_total = sqrt 30, printed_capacity_error = 30\<rparr>"
    using c8 unfolding f by (simp add: stalled_fields toy_cell8)
  with solve nb nb' show ?thesis by simp
qed

subsection \<open>The iteration cap\<close>

text \<open>
  Claim C9. When the iteration cap is reached before the relative residual falls below
  the tolerance, the solver of the specification still returns a result: the convergence
  flag is false, the iteration count is the cap, and the iterate returned is the best
  one, an iterate it computed whose relative residual is least among all it computed.
  What to do with the result is left to the caller. The solver is the one modelled from
  the specification's stopping rule; Bempp's own is not in the sources.
\<close>

theorem cap_reached_returns_best_iterate:
  assumes "\<forall>j\<le>cap. \<not> relres ((step ^^ j) x0) < tol"
  shows "converged (krylov_solve step relres tol cap x0) = False \<and>
         iteration_count (krylov_solve step relres tol cap x0) = cap \<and>
         (\<exists>j\<le>cap. iterate (krylov_solve step relres tol cap x0) = (step ^^ j) x0) \<and>
         (\<forall>j\<le>cap. relres (iterate (krylov_solve step relres tol cap x0))
                      \<le> relres ((step ^^ j) x0))"
proof -
  have "\<forall>j\<le>cap - 0. \<not> relres ((step ^^ j) x0) < tol"
    using assms by simp
  from krylov_cap [OF this, of x0] have r:
    "converged (krylov_solve step relres tol cap x0) = False"
    "iteration_count (krylov_solve step relres tol cap x0) = cap"
    "iterate (krylov_solve step relres tol cap x0) = x0 \<or>
       (\<exists>j\<le>cap. iterate (krylov_solve step relres tol cap x0) = (step ^^ j) x0)"
    "\<forall>j\<le>cap. relres (iterate (krylov_solve step relres tol cap x0)) \<le> relres ((step ^^ j) x0)"
    by (simp_all add: krylov_solve_def)
  from r(3) have "\<exists>j\<le>cap. iterate (krylov_solve step relres tol cap x0) = (step ^^ j) x0"
  proof
    assume "iterate (krylov_solve step relres tol cap x0) = x0"
    then have "iterate (krylov_solve step relres tol cap x0) = (step ^^ 0) x0" by simp
    then show ?thesis by blast
  qed
  with r(1,2,4) show ?thesis by blast
qed

text \<open>
  The theorem on halving from 1 with tolerance \<open>1/100\<close> and cap 2: the iterates are 1,
  \<open>1/2\<close> and \<open>1/4\<close>, none is within the tolerance, and the last is the best.
\<close>

theorem cap_reached_returns_best_iterate_witness:
  "krylov_solve (\<lambda>v. v / 2) abs (1 / 100) 2 (1::real) =
     \<lparr>iterate = 1 / 4, converged = False, iteration_count = 2\<rparr>"
proof -
  let ?r = "krylov_solve (\<lambda>v. v / 2) abs (1 / 100) 2 (1::real)"
  have its: "((\<lambda>v::real. v / 2) ^^ j) 1 = (if j = 0 then 1 else if j = 1 then 1 / 2 else 1 / 4)"
    if "j \<le> 2" for j
    using that by (auto simp: le_Suc_eq numeral_2_eq_2)
  have far: "\<forall>j\<le>2. \<not> \<bar>((\<lambda>v::real. v / 2) ^^ j) 1\<bar> < 1 / 100"
    by (simp add: its)
  from cap_reached_returns_best_iterate [OF far] have r:
    "converged ?r = False" "iteration_count ?r = 2"
    "\<exists>j\<le>2. iterate ?r = ((\<lambda>v. v / 2) ^^ j) 1"
    "\<forall>j\<le>2. \<bar>iterate ?r\<bar> \<le> \<bar>((\<lambda>v. v / 2) ^^ j) 1\<bar>"
    by blast+
  from r(4) have "\<bar>iterate ?r\<bar> \<le> \<bar>((\<lambda>v::real. v / 2) ^^ 2) 1\<bar>" by blast
  then have small: "\<bar>iterate ?r\<bar> \<le> 1 / 4" by (simp add: its)
  from r(3) obtain j where "j \<le> 2" "iterate ?r = ((\<lambda>v. v / 2) ^^ j) 1" by blast
  then have "iterate ?r = 1 / 4"
    using small by (simp add: its split: if_splits)
  with r(1,2) show ?thesis
    by (cases ?r) simp
qed

subsection \<open>The descendant map\<close>

text \<open>
  Claim C7. For every mesh and every element \<open>m\<close> of it, the descendant map of the
  specification lists six descendants; flattened, the map is a bijection onto the index
  set of the refinement (its rows, one after the other, are the indices
  \<open>0, 1, 2, \<dots>\<close> of the refined elements); the descendants of different elements are
  disjoint; and the areas of the descendants of \<open>m\<close> add up to the area of \<open>m\<close>,
  exactly. The refinement is the one modelled from the specification; Bempp's own is not
  in the sources.
\<close>

theorem barycentric_partition:
  assumes "m < length mesh"
  shows "length (spec_descendents_map mesh ! m) = 6 \<and>
         concat (spec_descendents_map mesh) = [0..<length (spec_barycentric_grid mesh)] \<and>
         bij_betw (\<lambda>(p, n). spec_descendents_map mesh ! p ! n)
           ({..<length mesh} \<times> {..<6}) {..<length (spec_barycentric_grid mesh)} \<and>
         (\<forall>p<length mesh. p \<noteq> m \<longrightarrow>
            set (spec_descendents_map mesh ! m) \<inter> set (spec_descendents_map mesh ! p) = {}) \<and>
         (\<Sum>n\<leftarrow>spec_descendents_map mesh ! m. area (spec_barycentric_grid mesh ! n))
           = area (mesh ! m)"
proof -
  have fan: "length (spec_descendents_map mesh ! m) = 6"
    using assms by (simp add: spec_map_row)
  have flat: "concat (spec_descendents_map mesh) = [0..<length (spec_barycentric_grid mesh)]"
    by (simp add: spec_descendents_map_def concat_index_blocks spec_grid_length)
  have entry: "spec_descendents_map mesh ! p ! n = 6 * p + n" if "p < length mesh" "n < 6" for p n
    using that by (simp add: spec_map_row)
  have bij: "bij_betw (\<lambda>(p, n). spec_descendents_map mesh ! p ! n)
      ({..<length mesh} \<times> {..<6}) {..<length (spec_barycentric_grid mesh)}"
    unfolding bij_betw_def
  proof
    show "inj_on (\<lambda>(p, n). spec_descendents_map mesh ! p ! n) ({..<length mesh} \<times> {..<6})"
    proof (rule inj_onI)
      fix x y :: "nat \<times> nat"
      assume x: "x \<in> {..<length mesh} \<times> {..<6}" and y: "y \<in> {..<length mesh} \<times> {..<6}"
        and eq: "(case x of (p, n) \<Rightarrow> spec_descendents_map mesh ! p ! n) =
                 (case y of (p, n) \<Rightarrow> spec_descendents_map mesh ! p ! n)"
      obtain p n p' n' where xy: "x = (p, n)" "y = (p', n')"
        by (cases x, cases y) blast
      have b: "p < length mesh" "n < 6" "p' < length mesh" "n' < 6"
        using x y by (simp_all add: xy)
      from eq have "6 * p + n = 6 * p' + n'"
        by (simp add: xy entry b)
      with b have "p = p' \<and> n = n'" by presburger
      then show "x = y" by (simp add: xy)
    qed
  next
    show "(\<lambda>(p, n). spec_descendents_map mesh ! p ! n) ` ({..<length mesh} \<times> {..<6}) =
        {..<length (spec_barycentric_grid mesh)}"
    proof (rule set_eqI, rule iffI)
      fix k
      assume "k \<in> (\<lambda>(p, n). spec_descendents_map mesh ! p ! n) ` ({..<length mesh} \<times> {..<6})"
      then obtain p n where "p < length mesh" "n < 6" "k = spec_descendents_map mesh ! p ! n"
        by auto
      then show "k \<in> {..<length (spec_barycentric_grid mesh)}"
        by (simp add: entry spec_grid_length)
    next
      fix k
      assume "k \<in> {..<length (spec_barycentric_grid mesh)}"
      then have k: "k div 6 < length mesh" "k mod 6 < 6"
        by (simp_all add: spec_grid_length less_mult_imp_div_less mult.commute)
      then have "k = spec_descendents_map mesh ! (k div 6) ! (k mod 6)"
        by (simp add: entry)
      with k show "k \<in> (\<lambda>(p, n). spec_descendents_map mesh ! p ! n) ` ({..<length mesh} \<times> {..<6})"
        by (intro image_eqI [where x = "(k div 6, k mod 6)"]) simp_all
    qed
  qed
  have disj: "\<forall>p<length mesh. p \<noteq> m \<longrightarrow>
      set (spec_descendents_map mesh ! m) \<inter> set (spec_descendents_map mesh ! p) = {}"
    using assms by (auto simp: spec_map_row)
  have "(\<Sum>n\<leftarrow>spec_descendents_map mesh ! m. area (spec_barycentric_grid mesh ! n)) =
      (\<Sum>s\<leftarrow>subdivide (mesh ! m). area s)"
    using assms by (simp add: spec_map_row spec_row_areas)
  then have areas: "(\<Sum>n\<leftarrow>spec_descendents_map mesh ! m. area (spec_barycentric_grid mesh ! n))
      = area (mesh ! m)"
    by (simp add: area_subdivide_sum)
  from fan flat bij disj areas show ?thesis by blast
qed

text \<open>
  The theorem on the mesh of one right triangle with legs 6: six descendants, numbered
  0 to 5, whose areas add up to 18.
\<close>

theorem barycentric_partition_witness:
  "spec_descendents_map [right_facet] ! 0 = [0, 1, 2, 3, 4, 5] \<and>
   concat (spec_descendents_map [right_facet]) = [0, 1, 2, 3, 4, 5] \<and>
   length (spec_barycentric_grid [right_facet]) = 6 \<and>
   (\<Sum>n\<leftarrow>[0, 1, 2, 3, 4, 5]. area (spec_barycentric_grid [right_facet] ! n)) = 18"
proof -
  have m: "0 < length [right_facet]" by simp
  have row: "spec_descendents_map [right_facet] ! 0 = [0, 1, 2, 3, 4, 5]"
    by (simp add: spec_descendents_map_def upt_rec [of _ 6] upt_rec [of _ 5] upt_rec [of _ 4]
        upt_rec [of _ 3] upt_rec [of _ 2] upt_rec [of _ 1])
  from barycentric_partition [OF m] have
    flat: "concat (spec_descendents_map [right_facet]) =
        [0..<length (spec_barycentric_grid [right_facet])]"
    and areas: "(\<Sum>n\<leftarrow>spec_descendents_map [right_facet] ! 0.
        area (spec_barycentric_grid [right_facet] ! n)) = area ([right_facet] ! 0)"
    by blast+
  have len: "length (spec_barycentric_grid [right_facet]) = 6"
    by (simp add: spec_grid_length)
  have "concat (spec_descendents_map [right_facet]) = [0, 1, 2, 3, 4, 5]"
    using row by (simp add: spec_descendents_map_def)
  with row len areas show ?thesis
    by (simp add: area_right_facet)
qed

end
